theory Spec2Isabelle
  imports Complex_Main "HOL-Library.Word"
begin

section \<open>Numeric model\<close>

text \<open>
  The two programs, \<^verbatim>\<open>tx-fm-zed.c\<close> (samples streamed from standard input) and
  \<^verbatim>\<open>tx-fm-zed-preload.c\<close> (samples loaded from a file and looped), compute the phase in
  C \<^verbatim>\<open>double\<close>. Where the runs of the programs are followed, a \<^verbatim>\<open>double\<close> is a
  \<^typ>\<open>real\<close>: rounding is not represented, and these are the runs in which every value
  stays finite. The modulator is also given on the whole of \<^verbatim>\<open>double\<close>, with the
  infinities and NaN, in a section of its own; the ranges of the phase and of the samples
  are proved there, together with the bounds inside which the two agree.
  \<^verbatim>\<open>int16_t\<close> is a 16-bit word read with \<^term>\<open>sint\<close>;
  \<^verbatim>\<open>long long\<close>, \<^verbatim>\<open>long\<close> and \<^verbatim>\<open>time_t\<close> values are integers, and the bounds that keep
  them inside the machine types are proved where they matter. Names that both files
  define are prefixed with \<open>zed_\<close> and \<open>preload_\<close>.
\<close>

type_synonym int16 = "16 word"

text \<open>Conversion of a \<^verbatim>\<open>double\<close> to an integer type in C discards the fractional part.\<close>

definition trunc_toward_zero :: "real \<Rightarrow> int" where
  "trunc_toward_zero x = (if 0 \<le> x then \<lfloor>x\<rfloor> else \<lceil>x\<rceil>)"

text \<open>
  \<^verbatim>\<open>fmod(x, y)\<close> of the C library: \<open>x - n * y\<close> with \<open>n\<close> the quotient \<open>x / y\<close> truncated
  toward zero, so the result has the sign of \<open>x\<close>.
\<close>

definition fmod :: "real \<Rightarrow> real \<Rightarrow> real" where
  "fmod x y = x - real_of_int (trunc_toward_zero (x / y)) * y"

text \<open>
  The cast \<^verbatim>\<open>(int16_t)d\<close>. C leaves the conversion undefined when the truncated value
  does not fit; here it wraps, and the range theorem below shows that the modulator
  never gets there while its phase is a number.
\<close>

definition to_int16 :: "real \<Rightarrow> int16" where
  "to_int16 d = word_of_int (trunc_toward_zero d)"

section \<open>The world outside the programs\<close>

text \<open>\<^verbatim>\<open>struct timespec\<close>\<close>

record timespec =
  tv_sec :: int
  tv_nsec :: int

text \<open>The four channels the programs look up, under the names of their variables.\<close>

datatype channel = lo_chan | phy_chan | tx0_i | tx0_q

text \<open>
  What a run does to the outside, in order: messages on the standard error stream
  (without the trailing newline, format strings unexpanded), calls into the IIO library,
  reads of the standard input, stores into a slot of the hardware buffer, waits. Each
  assignment to the flag \<^verbatim>\<open>stop\<close> is logged as well.
\<close>

datatype event =
    Stderr string
  | Attr_write_longlong channel string int
  | Attr_write_double channel string real
  | Channel_enable channel
  | Channel_disable channel
  | Create_buffer nat
  | Source_read
  | Slot_write nat int16 int16
  | Buffer_push
  | Wait_until timespec
  | Stop_assign bool
  | Buffer_destroy
  | Context_destroy

text \<open>
  One command-line option as \<^verbatim>\<open>getopt\<close> hands it over, its argument already converted
  by \<^verbatim>\<open>atoll\<close> or \<^verbatim>\<open>atof\<close>. \<open>Opt_other\<close> is any option letter that neither program
  declares.
\<close>

datatype opt = Opt_f int | Opt_s int | Opt_d real | Opt_i string | Opt_other

text \<open>
  Everything a run depends on and the sources do not define: the command line, the
  results of the library calls, the input, the clock and the arrival of SIGINT.
  \<^item> \<open>buffer_slots env k\<close> is the number of sample slots between
    \<^verbatim>\<open>iio_buffer_first\<close> and \<^verbatim>\<open>iio_buffer_end\<close> (in steps of \<^verbatim>\<open>iio_buffer_step\<close>) when
    the buffer is filled for the \<open>k\<close>-th time; the loops ask the library again on every
    refill. For a libiio buffer it is the size given to \<^verbatim>\<open>iio_device_create_buffer\<close>.
  \<^item> \<open>push_result env k\<close> is what the \<open>k\<close>-th \<^verbatim>\<open>iio_buffer_push\<close> returns.
  \<^item> \<open>stdin env\<close> lists the results of the successive \<^verbatim>\<open>read(STDIN_FILENO, &value, 2)\<close>
    calls: \<open>Some v\<close> when two bytes arrived and form the sample \<open>v\<close>, \<open>None\<close> when the
    call returned anything but 2. After the list every read returns end of file.
  \<^item> \<open>input_file env\<close> is \<open>None\<close> when \<^verbatim>\<open>fopen\<close> fails, otherwise the 16-bit items that
    \<^verbatim>\<open>fread\<close> delivers.
  \<^item> \<open>clock env k\<close> is what the \<open>k\<close>-th \<^verbatim>\<open>clock_gettime\<close> returns.
  \<^item> \<open>sigint env k\<close> holds when a SIGINT has been delivered since the loop last read
    \<^verbatim>\<open>stop\<close> and before it reads it for the \<open>k\<close>-th time (counting from 0). The handler
    runs between two statements of the loop; the only thing it touches is the flag, so
    it is run here right before the read that can see it.
\<close>

record env =
  opts :: "opt list"
  input_file :: "int16 list option"
  malloc_ok :: bool
  context_ok :: bool
  devices_ok :: bool
  channels_ok :: bool
  buffer_ok :: bool
  buffer_slots :: "nat \<Rightarrow> nat"
  push_result :: "nat \<Rightarrow> int"
  stdin :: "int16 option list"
  clock :: "nat \<Rightarrow> timespec"
  sigint :: "nat \<Rightarrow> bool"

section \<open>Program state\<close>

text \<open>
  The variables both programs have: the flag \<^verbatim>\<open>stop\<close>, \<^verbatim>\<open>deviation_scale\<close> and
  \<^verbatim>\<open>time_per_sample\<close>. With them travel the log of events and two counters that index
  the environment: the reads of \<^verbatim>\<open>stop\<close> by the loops and the buffers pushed.
\<close>

record common =
  stop :: bool
  deviation_scale :: real
  time_per_sample :: real
  trace :: "event list"
  stop_reads :: nat
  pushes :: nat

text \<open>\<^verbatim>\<open>tx-fm-zed.c\<close>: the phase \<^verbatim>\<open>signal_phase\<close> of \<^verbatim>\<open>main\<close> and the unread input.\<close>

record zed_state = common +
  signal_phase :: real
  stdin_rest :: "int16 option list"

text \<open>
  \<^verbatim>\<open>tx-fm-zed-preload.c\<close>: the globals \<^verbatim>\<open>phase_accum\<close>, \<^verbatim>\<open>samples\<close> and
  \<^verbatim>\<open>total_samples\<close>, the locals \<^verbatim>\<open>index\<close> and \<^verbatim>\<open>t\<close> of \<^verbatim>\<open>main\<close>, and the number of
  clock readings taken.
\<close>

record preload_state = common +
  phase_accum :: real
  samples :: "int16 list"
  total_samples :: nat
  index :: nat
  t :: timespec
  clock_reads :: nat

definition emit :: "event \<Rightarrow> 'a common_scheme \<Rightarrow> 'a common_scheme" where
  "emit e s = s\<lparr>trace := trace s @ [e]\<rparr>"

text \<open>The statement \<^verbatim>\<open>stop = b;\<close>\<close>

definition assign_stop :: "bool \<Rightarrow> 'a common_scheme \<Rightarrow> 'a common_scheme" where
  "assign_stop b s = emit (Stop_assign b) (s\<lparr>stop := b\<rparr>)"

text \<open>\<^verbatim>\<open>signal_handler\<close> of \<^verbatim>\<open>tx-fm-zed.c\<close> and \<^verbatim>\<open>handle_sig\<close> of \<^verbatim>\<open>tx-fm-zed-preload.c\<close>\<close>

definition signal_handler :: "'a common_scheme \<Rightarrow> 'a common_scheme" where
  "signal_handler s = assign_stop True s"

definition handle_sig :: "'a common_scheme \<Rightarrow> 'a common_scheme" where
  "handle_sig s = assign_stop True s"

text \<open>
  Run the handler if a SIGINT is due, and count the read of \<^verbatim>\<open>stop\<close> that follows.
\<close>

definition deliver ::
  "env \<Rightarrow> ('a common_scheme \<Rightarrow> 'a common_scheme) \<Rightarrow> 'a common_scheme \<Rightarrow> 'a common_scheme" where
  "deliver e handler s =
     (if sigint e (stop_reads s) then handler s else s)\<lparr>stop_reads := stop_reads s + 1\<rparr>"

text \<open>
  How far a loop got with the iterations it was allowed: it left the loop, or it is still
  inside.
\<close>

datatype 'a progress = Left 'a | Inside 'a

fun state_of :: "'a progress \<Rightarrow> 'a" where
  "state_of (Left s) = s"
| "state_of (Inside s) = s"

text \<open>
  How a run of \<^verbatim>\<open>main\<close> ends: with an exit status; still transmitting when the allowed
  iterations are used up; or at a point the model does not follow (a pointer that is
  \<^verbatim>\<open>NULL\<close> is used, a negative \<^verbatim>\<open>double\<close> is converted to \<^verbatim>\<open>size_t\<close>, \<^verbatim>\<open>1.0 / 0\<close>).
\<close>

datatype outcome = Exit int | Transmitting | Outside_model

section \<open>The modulator\<close>

text \<open>\<^verbatim>\<open>#define MAX_SAMPLE_VALUE 0x7FFF\<close>\<close>

definition MAX_SAMPLE_VALUE :: real where
  "MAX_SAMPLE_VALUE = 32767"

text \<open>
  The three values \<^verbatim>\<open>modulate_sample\<close> leaves behind: the two output samples and the
  updated phase.
\<close>

record modulated =
  i_sample :: int16
  q_sample :: int16
  signal :: real

text \<open>
  \<^verbatim>\<open>modulate_sample\<close> of \<^verbatim>\<open>tx-fm-zed.c\<close>; the phase is passed by pointer in the source
  (\<^verbatim>\<open>double* signal\<close>), here it is an argument and a field of the result.
\<close>

definition zed_modulate_sample :: "int16 \<Rightarrow> real \<Rightarrow> real \<Rightarrow> real \<Rightarrow> modulated" where
  "zed_modulate_sample deviation signal0 dev_scale time_per_smp =
     (let freq_hz = real_of_int (sint deviation) * dev_scale;
          phase_increment = 2 * pi * freq_hz * time_per_smp;
          signal1 = fmod (signal0 + phase_increment) (2 * pi)
      in \<lparr>i_sample = to_int16 (cos signal1 * MAX_SAMPLE_VALUE),
          q_sample = to_int16 (sin signal1 * MAX_SAMPLE_VALUE),
          signal = signal1\<rparr>)"

text \<open>
  \<^verbatim>\<open>modulate_sample\<close> of \<^verbatim>\<open>tx-fm-zed-preload.c\<close>, on the globals; \<^verbatim>\<open>0x7FFF\<close> is written
  out.
\<close>

definition preload_modulate_sample :: "int16 \<Rightarrow> preload_state \<Rightarrow> int16 \<times> int16 \<times> preload_state" where
  "preload_modulate_sample deviation s =
     (let dev_hz = real_of_int (sint deviation) * deviation_scale s;
          dphi = 2 * pi * dev_hz * time_per_sample s;
          s1 = s\<lparr>phase_accum := fmod (phase_accum s + dphi) (2 * pi)\<rparr>
      in (to_int16 (cos (phase_accum s1) * 32767), to_int16 (sin (phase_accum s1) * 32767), s1))"

section \<open>\<^verbatim>\<open>tx-fm-zed.c\<close>\<close>

text \<open>\<^verbatim>\<open>get_next_sample\<close>: one read; anything but two bytes sets \<^verbatim>\<open>stop\<close> and yields 0.\<close>

definition get_next_sample :: "zed_state \<Rightarrow> int16 \<times> zed_state" where
  "get_next_sample s =
     (case stdin_rest s of
        [] \<Rightarrow> (0, assign_stop True (emit Source_read s))
      | None # rest \<Rightarrow> (0, assign_stop True ((emit Source_read s)\<lparr>stdin_rest := rest\<rparr>))
      | Some v # rest \<Rightarrow> (v, (emit Source_read s)\<lparr>stdin_rest := rest\<rparr>))"

text \<open>
  The \<^verbatim>\<open>for\<close> loop of \<^verbatim>\<open>main\<close> over the slots of the buffer: \<open>zed_fill k n\<close> is the loop
  at slot \<open>k\<close> with \<open>n\<close> slots left before \<^verbatim>\<open>p_end\<close>.
\<close>

fun zed_fill :: "nat \<Rightarrow> nat \<Rightarrow> zed_state \<Rightarrow> zed_state" where
  "zed_fill k 0 s = s"
| "zed_fill k (Suc n) s =
     (let (sample, s1) = get_next_sample s;
          m = zed_modulate_sample sample (signal_phase s1) (deviation_scale s1) (time_per_sample s1);
          s2 = emit (Slot_write k (i_sample m) (q_sample m)) (s1\<lparr>signal_phase := signal m\<rparr>)
      in zed_fill (Suc k) n s2)"

text \<open>
  The \<^verbatim>\<open>while (!stop)\<close> loop of \<^verbatim>\<open>main\<close>, for at most the given number of iterations.
\<close>

fun zed_loop :: "nat \<Rightarrow> env \<Rightarrow> zed_state \<Rightarrow> zed_state progress" where
  "zed_loop 0 e s = Inside s"
| "zed_loop (Suc n) e s =
     (let s1 = deliver e signal_handler s
      in if stop s1 then Left s1
         else
           (let s2 = zed_fill 0 (buffer_slots e (pushes s1)) s1;
                nbytes = push_result e (pushes s2);
                s3 = (emit Buffer_push s2)\<lparr>pushes := pushes s2 + 1\<rparr>
            in if nbytes < 0 then Left (emit (Stderr ''Error pushing buffer'') s3)
               else zed_loop n e s3))"

text \<open>
  The option loop of \<^verbatim>\<open>main\<close> (\<^verbatim>\<open>getopt(argc, argv, "f:s:d:")\<close>): \<open>None\<close> is the
  \<^verbatim>\<open>default\<close> branch, which prints the usage line and returns 1.
\<close>

fun zed_getopt :: "opt list \<Rightarrow> int \<times> int \<times> real \<Rightarrow> (int \<times> int \<times> real) option" where
  "zed_getopt [] v = Some v"
| "zed_getopt (Opt_f n # os) (center_freq, sample_rate, deviation_hz) =
     zed_getopt os (n, sample_rate, deviation_hz)"
| "zed_getopt (Opt_s n # os) (center_freq, sample_rate, deviation_hz) =
     zed_getopt os (center_freq, n, deviation_hz)"
| "zed_getopt (Opt_d x # os) (center_freq, sample_rate, deviation_hz) =
     zed_getopt os (center_freq, sample_rate, x)"
| "zed_getopt (Opt_i f # os) v = None"
| "zed_getopt (Opt_other # os) v = None"

text \<open>\<^verbatim>\<open>#define DEFAULT_BUFFER_TIME 0.04\<close> and the other constants of \<^verbatim>\<open>tx-fm-zed.c\<close>\<close>

definition zed_DEFAULT_BUFFER_TIME :: real where
  "zed_DEFAULT_BUFFER_TIME = 4 / 100"

definition DEFAULT_BANDWIDTH :: int where
  "DEFAULT_BANDWIDTH = 200000"

definition DEFAULT_ATTENUATION :: real where
  "DEFAULT_ATTENUATION = - 10"

text \<open>What \<^verbatim>\<open>main\<close> does to the hardware before it creates the buffer.\<close>

definition zed_configure :: "int \<Rightarrow> int \<Rightarrow> event list" where
  "zed_configure center_freq sample_rate =
     [Attr_write_longlong lo_chan ''frequency'' center_freq,
      Attr_write_longlong lo_chan ''powerdown'' 0,
      Attr_write_double phy_chan ''hardwaregain'' DEFAULT_ATTENUATION,
      Attr_write_longlong phy_chan ''sampling_frequency'' sample_rate,
      Attr_write_longlong phy_chan ''rf_bandwidth'' DEFAULT_BANDWIDTH,
      Channel_enable tx0_i,
      Channel_enable tx0_q,
      Create_buffer (nat (trunc_toward_zero (zed_DEFAULT_BUFFER_TIME * real_of_int sample_rate)))]"

text \<open>The statements of \<^verbatim>\<open>main\<close> after the loop.\<close>

definition zed_shutdown :: "event list" where
  "zed_shutdown =
     [Stderr ''Stopping transmission'',
      Attr_write_longlong lo_chan ''powerdown'' 1,
      Buffer_destroy,
      Channel_disable tx0_i,
      Channel_disable tx0_q,
      Context_destroy]"

text \<open>
  The variables of \<^verbatim>\<open>main\<close> when it enters the loop: the flag as initialised, the
  scale and the sample period computed from the options, phase 0, nothing read yet.
\<close>

definition zed_start :: "int \<Rightarrow> int \<Rightarrow> real \<Rightarrow> env \<Rightarrow> zed_state" where
  "zed_start center_freq sample_rate deviation_hz e =
     \<lparr>stop = False,
      deviation_scale = deviation_hz / MAX_SAMPLE_VALUE,
      time_per_sample = 1 / real_of_int sample_rate,
      trace = zed_configure center_freq sample_rate @ [Stderr ''Starting transmission at %.1f MHz''],
      stop_reads = 0,
      pushes = 0,
      signal_phase = 0,
      stdin_rest = stdin e\<rparr>"

text \<open>
  \<^verbatim>\<open>main\<close> of \<^verbatim>\<open>tx-fm-zed.c\<close>. The handler is installed right before the loop; a SIGINT
  that arrives earlier ends the process and is not a run of this model.
\<close>

definition zed_main :: "nat \<Rightarrow> env \<Rightarrow> outcome \<times> event list" where
  "zed_main fuel e =
     (case zed_getopt (opts e) (- 1, - 1, 10000) of
        None \<Rightarrow> (Exit 1, [Stderr ''Usage: %s -f freq -s samplerate [-d deviation]''])
      | Some (center_freq, sample_rate, deviation_hz) \<Rightarrow>
          if center_freq < 70000000 \<or> center_freq > 6000000000
          then (Exit 1, [Stderr ''Invalid frequency. Must be between 70 MHz and 6 GHz.''])
          else if sample_rate < 1000000 \<or> sample_rate > 61440000
          then (Exit 1, [Stderr ''Invalid sample rate. Must be between 1 MHz and 61.44 MHz.''])
          else if \<not> context_ok e
          then (Exit 1, [Stderr ''Failed to create IIO context.''])
          else if \<not> devices_ok e
          then (Exit 1, [Stderr ''Missing required IIO devices.''])
          else if \<not> channels_ok e
          then (Exit 1, [Stderr ''Missing TX channels or LO channel.''])
          else if \<not> buffer_ok e
          then (Exit 1, zed_configure center_freq sample_rate @ [Stderr ''Could not create TX buffer''])
          else
            (case zed_loop fuel e (zed_start center_freq sample_rate deviation_hz e) of
               Inside s \<Rightarrow> (Transmitting, trace s)
             | Left s \<Rightarrow> (Exit 0, trace s @ zed_shutdown)))"

section \<open>\<^verbatim>\<open>tx-fm-zed-preload.c\<close>\<close>

text \<open>\<^verbatim>\<open>time_add_ns\<close>: the \<^verbatim>\<open>while\<close> loop that carries whole seconds, then the function.\<close>

function carry_seconds :: "timespec \<Rightarrow> timespec" where
  "carry_seconds ts =
     (if tv_nsec ts \<ge> 1000000000
      then carry_seconds (ts\<lparr>tv_nsec := tv_nsec ts - 1000000000, tv_sec := tv_sec ts + 1\<rparr>)
      else ts)"
  by pat_completeness auto
termination
  by (relation "measure (\<lambda>ts. nat (tv_nsec ts))") auto

declare carry_seconds.simps [simp del]

definition time_add_ns :: "timespec \<Rightarrow> int \<Rightarrow> timespec" where
  "time_add_ns ts ns = carry_seconds (ts\<lparr>tv_nsec := tv_nsec ts + ns\<rparr>)"

text \<open>\<^verbatim>\<open>wait_until\<close>: the sleep is an event; the model has no time of its own.\<close>

definition wait_until :: "timespec \<Rightarrow> 'a common_scheme \<Rightarrow> 'a common_scheme" where
  "wait_until target s = emit (Wait_until target) s"

text \<open>\<^verbatim>\<open>#define DEFAULT_BUFFER_TIME 0.1\<close>\<close>

definition preload_DEFAULT_BUFFER_TIME :: real where
  "preload_DEFAULT_BUFFER_TIME = 1 / 10"

text \<open>
  The \<^verbatim>\<open>for\<close> loop of \<^verbatim>\<open>main\<close>: \<open>preload_fill k n\<close> is the loop at slot \<open>k\<close> with \<open>n\<close>
  slots left before \<^verbatim>\<open>p_end\<close>; it also ends when \<^verbatim>\<open>index\<close> reaches \<^verbatim>\<open>total_samples\<close>.
  \<^verbatim>\<open>main\<close> sets \<^verbatim>\<open>total_samples\<close> to the number of items in \<^verbatim>\<open>samples\<close>, so the read
  \<^verbatim>\<open>samples[index]\<close> is inside the array.
\<close>

fun preload_fill :: "nat \<Rightarrow> nat \<Rightarrow> preload_state \<Rightarrow> preload_state" where
  "preload_fill k 0 s = s"
| "preload_fill k (Suc n) s =
     (if index s < total_samples s
      then
        (let deviation = samples s ! index s;
             s1 = s\<lparr>index := index s + 1\<rparr>;
             (i, q, s2) = preload_modulate_sample deviation s1
         in preload_fill (Suc k) n (emit (Slot_write k i q) s2))
      else s)"

text \<open>
  The inner loop \<^verbatim>\<open>while (!stop && index < total_samples)\<close>: one pass over the samples,
  for at most the given number of buffers.
\<close>

fun preload_pass :: "nat \<Rightarrow> env \<Rightarrow> preload_state \<Rightarrow> preload_state progress" where
  "preload_pass 0 e s = Inside s"
| "preload_pass (Suc n) e s =
     (let s1 = deliver e handle_sig s
      in if \<not> stop s1 \<and> index s1 < total_samples s1
         then
           (let s2 = preload_fill 0 (buffer_slots e (pushes s1)) s1;
                s3 = (emit Buffer_push s2)\<lparr>pushes := pushes s2 + 1\<rparr>;
                s4 = s3\<lparr>t := time_add_ns (t s3)
                                 (trunc_toward_zero (preload_DEFAULT_BUFFER_TIME * 1000000000))\<rparr>
            in preload_pass n e (wait_until (t s4) s4))
         else Left s1)"

text \<open>
  The outer loop \<^verbatim>\<open>while (!stop)\<close>: at most the given number of passes, each of at most
  as many buffers.
\<close>

fun preload_loop :: "nat \<Rightarrow> env \<Rightarrow> preload_state \<Rightarrow> preload_state progress" where
  "preload_loop 0 e s = Inside s"
| "preload_loop (Suc n) e s =
     (let s1 = deliver e handle_sig s
      in if stop s1 then Left s1
         else
           (let s2 = s1\<lparr>phase_accum := 0, index := 0,
                        t := clock e (clock_reads s1), clock_reads := clock_reads s1 + 1\<rparr>
            in case preload_pass n e s2 of
                 Inside s3 \<Rightarrow> Inside s3
               | Left s3 \<Rightarrow> preload_loop n e s3))"

text \<open>
  The option loop of \<^verbatim>\<open>main\<close> (\<^verbatim>\<open>getopt(argc, argv, "f:s:i:")\<close>): \<open>None\<close> is the
  \<^verbatim>\<open>default\<close> branch, which prints the usage line and returns 1.
\<close>

fun preload_getopt ::
  "opt list \<Rightarrow> int \<times> int \<times> string option \<Rightarrow> (int \<times> int \<times> string option) option" where
  "preload_getopt [] v = Some v"
| "preload_getopt (Opt_f n # os) (center_freq, sample_rate, input_filename) =
     preload_getopt os (n, sample_rate, input_filename)"
| "preload_getopt (Opt_s n # os) (center_freq, sample_rate, input_filename) =
     preload_getopt os (center_freq, n, input_filename)"
| "preload_getopt (Opt_i f # os) (center_freq, sample_rate, input_filename) =
     preload_getopt os (center_freq, sample_rate, Some f)"
| "preload_getopt (Opt_d x # os) v = None"
| "preload_getopt (Opt_other # os) v = None"

text \<open>What \<^verbatim>\<open>main\<close> does to the hardware before it creates the buffer.\<close>

definition preload_configure :: "int \<Rightarrow> int \<Rightarrow> event list" where
  "preload_configure center_freq sample_rate =
     [Attr_write_longlong lo_chan ''frequency'' center_freq,
      Attr_write_longlong lo_chan ''powerdown'' 0,
      Attr_write_double phy_chan ''hardwaregain'' DEFAULT_ATTENUATION,
      Attr_write_longlong phy_chan ''sampling_frequency'' sample_rate,
      Channel_enable tx0_i,
      Channel_enable tx0_q,
      Create_buffer (nat (trunc_toward_zero (preload_DEFAULT_BUFFER_TIME * real_of_int sample_rate)))]"

text \<open>The statements of \<^verbatim>\<open>main\<close> after the loops.\<close>

definition preload_shutdown :: "event list" where
  "preload_shutdown =
     [Attr_write_longlong lo_chan ''powerdown'' 1,
      Buffer_destroy,
      Channel_disable tx0_i,
      Channel_disable tx0_q,
      Context_destroy]"

text \<open>
  The variables when \<^verbatim>\<open>main\<close> enters the loops: the globals as initialised or as set
  from the file and the options. \<^verbatim>\<open>index\<close> and \<^verbatim>\<open>t\<close> are set at the top of the outer
  loop before they are used; they start here at 0.
\<close>

definition preload_start :: "int \<Rightarrow> int \<Rightarrow> int16 list \<Rightarrow> preload_state" where
  "preload_start center_freq sample_rate items =
     \<lparr>stop = False,
      deviation_scale = 7500 / 32767,
      time_per_sample = 1 / real_of_int sample_rate,
      trace = preload_configure center_freq sample_rate,
      stop_reads = 0,
      pushes = 0,
      phase_accum = 0,
      samples = items,
      total_samples = length items,
      index = 0,
      t = \<lparr>tv_sec = 0, tv_nsec = 0\<rparr>,
      clock_reads = 0\<rparr>"

text \<open>
  \<^verbatim>\<open>main\<close> of \<^verbatim>\<open>tx-fm-zed-preload.c\<close>. The defaults of \<^verbatim>\<open>center_freq\<close> and
  \<^verbatim>\<open>sample_rate\<close> are the initialisers of the globals. The channels are used without a
  check, and a sample rate that is not positive gives an infinite \<^verbatim>\<open>time_per_sample\<close>
  or a negative buffer size: those runs leave the model.
\<close>

definition preload_main :: "nat \<Rightarrow> env \<Rightarrow> outcome \<times> event list" where
  "preload_main fuel e =
     (case preload_getopt (opts e) (96500000, 2304000, None) of
        None \<Rightarrow> (Exit 1, [Stderr ''Usage: %s -f freq -s samplerate -i input.raw''])
      | Some (center_freq, sample_rate, input_filename) \<Rightarrow>
          (case input_filename of
             None \<Rightarrow> (Exit 1, [Stderr ''Input file is required.''])
           | Some name \<Rightarrow>
               (case input_file e of
                  None \<Rightarrow> (Exit 1, [Stderr ''fopen''])
                | Some items \<Rightarrow>
                    if \<not> malloc_ok e
                    then (Exit 1, [Stderr ''malloc''])
                    else if sample_rate \<le> 0
                    then (Outside_model, [])
                    else if \<not> context_ok e
                    then (Exit 1, [Stderr ''Could not create IIO context''])
                    else if \<not> devices_ok e
                    then (Exit 1, [Stderr ''Could not find IIO devices''])
                    else if \<not> channels_ok e
                    then (Outside_model, [])
                    else if \<not> buffer_ok e
                    then (Exit 1, preload_configure center_freq sample_rate
                                    @ [Stderr ''Failed to create buffer''])
                    else
                      (case preload_loop fuel e (preload_start center_freq sample_rate items) of
                         Inside s \<Rightarrow> (Transmitting, trace s)
                       | Left s \<Rightarrow> (Exit 0, trace s @ preload_shutdown)))))"

section \<open>The modulator on the whole of \<^verbatim>\<open>double\<close>\<close>

text \<open>
  Neither program checks that the values the modulator works on are finite:
  \<^verbatim>\<open>tx-fm-zed.c\<close> takes the deviation from \<^verbatim>\<open>atof\<close> as it comes (\<^verbatim>\<open>nan\<close>, \<^verbatim>\<open>inf\<close>, \<^verbatim>\<open>1e308\<close>),
  and \<^verbatim>\<open>tx-fm-zed-preload.c\<close> divides by a sample rate that may be 0. Here a
  \<^verbatim>\<open>double\<close> is a real number, one of the two infinities, or NaN. An operation on finite
  values gives the exact result when its magnitude is at most \<^verbatim>\<open>DBL_MAX\<close> and an
  infinity beyond; on the other values it follows IEEE 754 and Annex F of the C
  standard. Rounding to the nearest \<^verbatim>\<open>double\<close> and the sign of zero are not
  represented.
\<close>

datatype double = Finite real | Plus_infinity | Minus_infinity | NaN

text \<open>The largest finite \<^verbatim>\<open>double\<close>, 1024 binary digits of which the first 53 are ones.\<close>

definition DBL_MAX :: real where
  "DBL_MAX = 2 ^ 1024 - 2 ^ 971"

text \<open>What an operation delivers when its exact result is the real number \<open>x\<close>.\<close>

definition finite_result :: "real \<Rightarrow> double" where
  "finite_result x =
     (if DBL_MAX < x then Plus_infinity
      else if x < - DBL_MAX then Minus_infinity
      else Finite x)"

text \<open>The sign of a value, and the infinity of a given sign (NaN for 0 times an infinity).\<close>

fun sign_of :: "double \<Rightarrow> real" where
  "sign_of (Finite a) = sgn a"
| "sign_of Plus_infinity = 1"
| "sign_of Minus_infinity = - 1"
| "sign_of NaN = 0"

definition infinity_of_sign :: "real \<Rightarrow> double" where
  "infinity_of_sign s =
     (if 0 < s then Plus_infinity else if s < 0 then Minus_infinity else NaN)"

text \<open>The operators \<^verbatim>\<open>*\<close> and \<^verbatim>\<open>+\<close> on \<^verbatim>\<open>double\<close>.\<close>

fun double_mul :: "double \<Rightarrow> double \<Rightarrow> double" where
  "double_mul NaN y = NaN"
| "double_mul x NaN = NaN"
| "double_mul (Finite a) (Finite b) = finite_result (a * b)"
| "double_mul x y = infinity_of_sign (sign_of x * sign_of y)"

fun double_add :: "double \<Rightarrow> double \<Rightarrow> double" where
  "double_add NaN y = NaN"
| "double_add x NaN = NaN"
| "double_add (Finite a) (Finite b) = finite_result (a + b)"
| "double_add Plus_infinity Minus_infinity = NaN"
| "double_add Minus_infinity Plus_infinity = NaN"
| "double_add Plus_infinity y = Plus_infinity"
| "double_add x Plus_infinity = Plus_infinity"
| "double_add Minus_infinity y = Minus_infinity"
| "double_add x Minus_infinity = Minus_infinity"

text \<open>
  The operator \<^verbatim>\<open>/\<close>. A divisor 0 is the positive zero: the programs divide by a
  constant and by a converted integer only.
\<close>

fun double_div :: "double \<Rightarrow> double \<Rightarrow> double" where
  "double_div NaN y = NaN"
| "double_div x NaN = NaN"
| "double_div (Finite a) (Finite b) =
     (if b = 0 then infinity_of_sign (sgn a) else finite_result (a / b))"
| "double_div (Finite a) y = Finite 0"
| "double_div x (Finite b) = infinity_of_sign (sign_of x * (if b < 0 then - 1 else 1))"
| "double_div x y = NaN"

text \<open>
  \<^verbatim>\<open>fmod\<close>, \<^verbatim>\<open>cos\<close> and \<^verbatim>\<open>sin\<close> of the C library: \<^verbatim>\<open>fmod(x, y)\<close> is NaN when \<open>x\<close> is infinite
  or \<open>y\<close> is 0 and is \<open>x\<close> when only \<open>y\<close> is infinite; the cosine and the sine of an
  infinity are NaN; NaN goes through all three.
\<close>

fun double_fmod :: "double \<Rightarrow> double \<Rightarrow> double" where
  "double_fmod (Finite a) (Finite b) = (if b = 0 then NaN else Finite (fmod a b))"
| "double_fmod (Finite a) Plus_infinity = Finite a"
| "double_fmod (Finite a) Minus_infinity = Finite a"
| "double_fmod x y = NaN"

fun double_cos :: "double \<Rightarrow> double" where
  "double_cos (Finite a) = Finite (cos a)"
| "double_cos x = NaN"

fun double_sin :: "double \<Rightarrow> double" where
  "double_sin (Finite a) = Finite (sin a)"
| "double_sin x = NaN"

text \<open>
  The cast \<^verbatim>\<open>(int16_t)d\<close> on the whole of \<^verbatim>\<open>double\<close>: the fractional part is discarded,
  and the behaviour is undefined (\<open>None\<close>) when what is left does not fit, and for the
  infinities and NaN.
\<close>

fun double_to_int16 :: "double \<Rightarrow> int16 option" where
  "double_to_int16 (Finite a) =
     (if - 32768 \<le> trunc_toward_zero a \<and> trunc_toward_zero a \<le> 32767
      then Some (word_of_int (trunc_toward_zero a))
      else None)"
| "double_to_int16 x = None"

text \<open>\<^verbatim>\<open>M_PI\<close> of \<^verbatim>\<open>math.h\<close>\<close>

definition M_PI :: double where
  "M_PI = Finite pi"

text \<open>
  What \<^verbatim>\<open>modulate_sample\<close> leaves behind on the whole of \<^verbatim>\<open>double\<close>: the two output
  samples, where their conversion is defined, and the updated phase.
\<close>

record double_modulated =
  i_out :: "int16 option"
  q_out :: "int16 option"
  signal_out :: double

text \<open>
  \<^verbatim>\<open>modulate_sample\<close>, statement by statement as in \<^verbatim>\<open>tx-fm-zed.c\<close>, with the operations
  of \<^verbatim>\<open>double\<close>. The function of \<^verbatim>\<open>tx-fm-zed-preload.c\<close> is the same computation on the
  globals \<^verbatim>\<open>phase_accum\<close>, \<^verbatim>\<open>deviation_scale\<close> and \<^verbatim>\<open>time_per_sample\<close>.
\<close>

definition double_modulate_sample ::
  "int16 \<Rightarrow> double \<Rightarrow> double \<Rightarrow> double \<Rightarrow> double_modulated" where
  "double_modulate_sample deviation signal0 dev_scale time_per_smp =
     (let freq_hz = double_mul (Finite (real_of_int (sint deviation))) dev_scale;
          phase_increment =
            double_mul (double_mul (double_mul (Finite 2) M_PI) freq_hz) time_per_smp;
          signal1 = double_fmod (double_add signal0 phase_increment) (double_mul (Finite 2) M_PI)
      in \<lparr>i_out = double_to_int16 (double_mul (double_cos signal1) (Finite MAX_SAMPLE_VALUE)),
          q_out = double_to_int16 (double_mul (double_sin signal1) (Finite MAX_SAMPLE_VALUE)),
          signal_out = signal1\<rparr>)"

text \<open>
  The sum \<^verbatim>\<open>*signal + phase_increment\<close> that \<^verbatim>\<open>fmod\<close> is applied to, and the phase after
  a sequence of calls.
\<close>

definition double_phase_sum :: "int16 \<Rightarrow> double \<Rightarrow> double \<Rightarrow> double \<Rightarrow> double" where
  "double_phase_sum deviation signal0 dev_scale time_per_smp =
     double_add signal0
       (double_mul
          (double_mul (double_mul (Finite 2) M_PI)
             (double_mul (Finite (real_of_int (sint deviation))) dev_scale))
          time_per_smp)"

fun double_phase_after :: "double \<Rightarrow> double \<Rightarrow> double \<Rightarrow> int16 list \<Rightarrow> double" where
  "double_phase_after sc tp ph [] = ph"
| "double_phase_after sc tp ph (d # ds) =
     double_phase_after sc tp (signal_out (double_modulate_sample d ph sc tp)) ds"

text \<open>
  The parameters as the two \<^verbatim>\<open>main\<close> functions compute them:
  \<^verbatim>\<open>deviation_scale = deviation_hz / MAX_SAMPLE_VALUE\<close> in \<^verbatim>\<open>tx-fm-zed.c\<close>, where
  \<^verbatim>\<open>deviation_hz\<close> is what \<^verbatim>\<open>atof\<close> made of the argument of \<^verbatim>\<open>-d\<close>;
  \<^verbatim>\<open>deviation_scale = 7500.0 / 32767.0\<close> in \<^verbatim>\<open>tx-fm-zed-preload.c\<close>; and
  \<^verbatim>\<open>time_per_sample = 1.0 / sample_rate\<close> in both.
\<close>

definition zed_deviation_scale :: "double \<Rightarrow> double" where
  "zed_deviation_scale deviation_hz = double_div deviation_hz (Finite MAX_SAMPLE_VALUE)"

definition preload_deviation_scale :: double where
  "preload_deviation_scale = double_div (Finite 7500) (Finite 32767)"

definition sample_period :: "int \<Rightarrow> double" where
  "sample_period sample_rate = double_div (Finite 1) (Finite (real_of_int sample_rate))"


section \<open>Reading a trace\<close>

text \<open>The (I, Q) pairs stored into buffer slots, in the order of the stores.\<close>

fun slot_writes :: "event list \<Rightarrow> (int16 \<times> int16) list" where
  "slot_writes [] = []"
| "slot_writes (Slot_write k i q # es) = (i, q) # slot_writes es"
| "slot_writes (e # es) = slot_writes es"

text \<open>The numbers of the slots stored into, in the same order.\<close>

fun written_slots :: "event list \<Rightarrow> nat list" where
  "written_slots [] = []"
| "written_slots (Slot_write k i q # es) = k # written_slots es"
| "written_slots (e # es) = written_slots es"

text \<open>The number of reads of the standard input.\<close>

fun source_reads :: "event list \<Rightarrow> nat" where
  "source_reads [] = 0"
| "source_reads (Source_read # es) = Suc (source_reads es)"
| "source_reads (e # es) = source_reads es"

text \<open>The values assigned to \<^verbatim>\<open>stop\<close>, in order.\<close>

fun stop_writes :: "event list \<Rightarrow> bool list" where
  "stop_writes [] = []"
| "stop_writes (Stop_assign b # es) = b # stop_writes es"
| "stop_writes (e # es) = stop_writes es"

text \<open>The deadlines waited for, in order.\<close>

fun deadlines :: "event list \<Rightarrow> timespec list" where
  "deadlines [] = []"
| "deadlines (Wait_until ts # es) = ts # deadlines es"
| "deadlines (e # es) = deadlines es"

text \<open>
  In a history of the values of a flag, the number of changes from false to true and the
  number of changes from true to false.
\<close>

fun rises :: "bool list \<Rightarrow> nat" where
  "rises (False # True # bs) = Suc (rises (True # bs))"
| "rises (b # c # bs) = rises (c # bs)"
| "rises bs = 0"

fun falls :: "bool list \<Rightarrow> nat" where
  "falls (True # False # bs) = Suc (falls (False # bs))"
| "falls (b # c # bs) = falls (c # bs)"
| "falls bs = 0"

section \<open>Modulating a sequence in one pass\<close>

text \<open>
  The reference the chunked loops are compared with, in the words of the specification:
  a deviation sequence modulated sample by sample, the phase carried from each sample
  to the next and never reset. \<open>spec_one_pass\<close> lists the (I, Q) pairs and
  \<open>spec_phase_after\<close> is the phase left at the end.
\<close>

fun spec_one_pass :: "real \<Rightarrow> real \<Rightarrow> real \<Rightarrow> int16 list \<Rightarrow> (int16 \<times> int16) list" where
  "spec_one_pass sc tp ph [] = []"
| "spec_one_pass sc tp ph (d # ds) =
     (i_sample (zed_modulate_sample d ph sc tp), q_sample (zed_modulate_sample d ph sc tp))
       # spec_one_pass sc tp (signal (zed_modulate_sample d ph sc tp)) ds"

fun spec_phase_after :: "real \<Rightarrow> real \<Rightarrow> real \<Rightarrow> int16 list \<Rightarrow> real" where
  "spec_phase_after sc tp ph [] = ph"
| "spec_phase_after sc tp ph (d # ds) =
     spec_phase_after sc tp (signal (zed_modulate_sample d ph sc tp)) ds"

text \<open>
  The values that the first \<open>n\<close> calls of \<^verbatim>\<open>get_next_sample\<close> return on a given input:
  the sample when the read delivers one, 0 when it does not.
\<close>

fun delivered :: "int16 option list \<Rightarrow> nat \<Rightarrow> int16 list" where
  "delivered input 0 = []"
| "delivered [] (Suc n) = 0 # delivered [] n"
| "delivered (None # rest) (Suc n) = 0 # delivered rest n"
| "delivered (Some v # rest) (Suc n) = v # delivered rest n"

text \<open>
  Whether one of the first \<open>n\<close> reads of an input fails to deliver a sample.
\<close>

fun exhausted_within :: "int16 option list \<Rightarrow> nat \<Rightarrow> bool" where
  "exhausted_within input 0 = False"
| "exhausted_within [] (Suc n) = True"
| "exhausted_within (None # rest) (Suc n) = True"
| "exhausted_within (Some v # rest) (Suc n) = exhausted_within rest n"

text \<open>
  The samples of the preloading program between two positions of \<^verbatim>\<open>index\<close>.
\<close>

definition samples_between :: "preload_state \<Rightarrow> nat \<Rightarrow> nat \<Rightarrow> int16 list" where
  "samples_between s a b = map (\<lambda>j. samples s ! j) [a..<b]"

text \<open>A time stamp in nanoseconds.\<close>

definition nanoseconds :: "timespec \<Rightarrow> int" where
  "nanoseconds ts = tv_sec ts * 1000000000 + tv_nsec ts"

text \<open>
  The number of slots of \<open>m\<close> successive buffers, from the \<open>p\<close>-th refill on: how many
  samples a chunking into these buffers takes.
\<close>

fun slots_over :: "env \<Rightarrow> nat \<Rightarrow> nat \<Rightarrow> nat" where
  "slots_over e p 0 = 0"
| "slots_over e p (Suc m) = buffer_slots e p + slots_over e (Suc p) m"

section \<open>Relations between states used in the proofs\<close>

text \<open>
  \<open>zed_advanced s s' r\<close>: the streaming program has gone from \<open>s\<close> to \<open>s'\<close> by reading
  the source \<open>r\<close> times, and all it stored into slots is the one-pass modulation of the
  values delivered.
\<close>

definition zed_advanced :: "zed_state \<Rightarrow> zed_state \<Rightarrow> nat \<Rightarrow> bool" where
  "zed_advanced s s' r \<longleftrightarrow>
     slot_writes (trace s')
       = slot_writes (trace s)
           @ spec_one_pass (deviation_scale s) (time_per_sample s) (signal_phase s)
               (delivered (stdin_rest s) r)
     \<and> source_reads (trace s') = source_reads (trace s) + r
     \<and> signal_phase s'
         = spec_phase_after (deviation_scale s) (time_per_sample s) (signal_phase s)
             (delivered (stdin_rest s) r)
     \<and> stdin_rest s' = drop r (stdin_rest s)
     \<and> deviation_scale s' = deviation_scale s
     \<and> time_per_sample s' = time_per_sample s"

text \<open>
  \<open>preload_advanced s s'\<close>: the preloading program has gone from \<open>s\<close> to \<open>s'\<close> inside
  one pass, and all it stored into slots is the one-pass modulation of the samples
  between the two positions of \<^verbatim>\<open>index\<close>.
\<close>

definition preload_advanced :: "preload_state \<Rightarrow> preload_state \<Rightarrow> bool" where
  "preload_advanced s s' \<longleftrightarrow>
     slot_writes (trace s')
       = slot_writes (trace s)
           @ spec_one_pass (deviation_scale s) (time_per_sample s) (phase_accum s)
               (samples_between s (index s) (index s'))
     \<and> phase_accum s'
         = spec_phase_after (deviation_scale s) (time_per_sample s) (phase_accum s)
             (samples_between s (index s) (index s'))
     \<and> index s \<le> index s'
     \<and> index s' \<le> max (index s) (total_samples s)
     \<and> samples s' = samples s
     \<and> total_samples s' = total_samples s
     \<and> deviation_scale s' = deviation_scale s
     \<and> time_per_sample s' = time_per_sample s"

section \<open>Deadlines\<close>

text \<open>
  The deadline that follows a given one in the inner loop of the preloading program:
  \<^verbatim>\<open>time_add_ns(&t, DEFAULT_BUFFER_TIME * 1e9)\<close>, the \<^verbatim>\<open>double\<close> converted to \<^verbatim>\<open>long\<close>.
\<close>

definition next_deadline :: "timespec \<Rightarrow> timespec" where
  "next_deadline ts =
     time_add_ns ts (trunc_toward_zero (preload_DEFAULT_BUFFER_TIME * 1000000000))"

text \<open>The next \<open>n\<close> deadlines after a given one.\<close>

fun deadline_list :: "timespec \<Rightarrow> nat \<Rightarrow> timespec list" where
  "deadline_list ts 0 = []"
| "deadline_list ts (Suc n) = next_deadline ts # deadline_list (next_deadline ts) n"

text \<open>
  In the words of the specification: a time stamp plus \<open>n\<close> buffer durations of a tenth
  of a second, in nanoseconds, the overflow of the nanoseconds carried into the seconds.
\<close>

definition spec_deadline :: "timespec \<Rightarrow> nat \<Rightarrow> timespec" where
  "spec_deadline ts n =
     \<lparr>tv_sec = tv_sec ts + (tv_nsec ts + int n * 100000000) div 1000000000,
      tv_nsec = (tv_nsec ts + int n * 100000000) mod 1000000000\<rparr>"

text \<open>
  \<open>preload_paced s s'\<close>: between \<open>s\<close> and \<open>s'\<close> the deadline has moved on once for every
  buffer pushed, and every deadline on the way has been waited for.
\<close>

definition preload_paced :: "preload_state \<Rightarrow> preload_state \<Rightarrow> bool" where
  "preload_paced s s' \<longleftrightarrow>
     pushes s \<le> pushes s'
     \<and> t s' = (next_deadline ^^ (pushes s' - pushes s)) (t s)
     \<and> deadlines (trace s') = deadlines (trace s) @ deadline_list (t s) (pushes s' - pushes s)"

section \<open>Concrete runs\<close>

text \<open>
  An environment in which every library call succeeds, every buffer has one slot, no
  SIGINT arrives, the input file holds two samples 0 and the clock advances by one
  second from reading to reading.
\<close>

definition quiet_env :: env where
  "quiet_env =
     \<lparr>opts = [Opt_i ''input.raw''],
      input_file = Some [0, 0],
      malloc_ok = True,
      context_ok = True,
      devices_ok = True,
      channels_ok = True,
      buffer_ok = True,
      buffer_slots = (\<lambda>k. 1),
      push_result = (\<lambda>k. 4),
      stdin = [],
      clock = (\<lambda>k. \<lparr>tv_sec = int k, tv_nsec = 0\<rparr>),
      sigint = (\<lambda>k. False)\<rparr>"

text \<open>
  A state of the preloading program at the start of a pass over two samples 0, with the
  deadline 50 ms before a full second.
\<close>

definition pass_start :: preload_state where
  "pass_start =
     \<lparr>stop = False,
      deviation_scale = 7500 / 32767,
      time_per_sample = 1 / 2304000,
      trace = [],
      stop_reads = 0,
      pushes = 0,
      phase_accum = 0,
      samples = [0, 0],
      total_samples = 2,
      index = 0,
      t = \<lparr>tv_sec = 5, tv_nsec = 950000000\<rparr>,
      clock_reads = 0\<rparr>"


text \<open>
  The environment \<open>quiet_env\<close> with a file of one sample 0 and a clock that is 150 ms
  further at every reading: each pass is one buffer, and the loop takes 50 ms more than
  the buffer duration to come round.
\<close>

definition late_env :: env where
  "late_env =
     quiet_env\<lparr>input_file := Some [0],
               clock := (\<lambda>k. \<lparr>tv_sec = 0, tv_nsec = 150000000 * int k\<rparr>)\<rparr>"

text \<open>
  \<open>flag_only_raised s s'\<close>: between \<open>s\<close> and \<open>s'\<close> every assignment to \<^verbatim>\<open>stop\<close> stored
  true, and the flag holds in \<open>s'\<close> when it held in \<open>s\<close> or was assigned to.
\<close>

definition flag_only_raised :: "'a common_scheme \<Rightarrow> 'a common_scheme \<Rightarrow> bool" where
  "flag_only_raised s s' \<longleftrightarrow>
     (\<exists>m. stop_writes (trace s') = stop_writes (trace s) @ replicate m True
          \<and> stop s' = (stop s \<or> 0 < m))"

text \<open>
  Two command lines in range for which the hardware buffer cannot be created, one for
  each program, and two command lines with a centre frequency out of range.
\<close>

definition zed_no_buffer_env :: env where
  "zed_no_buffer_env = quiet_env\<lparr>opts := [Opt_f 100000000, Opt_s 2000000], buffer_ok := False\<rparr>"

definition preload_no_buffer_env :: env where
  "preload_no_buffer_env = quiet_env\<lparr>buffer_ok := False\<rparr>"

definition zed_low_frequency_env :: env where
  "zed_low_frequency_env = quiet_env\<lparr>opts := [Opt_f 1, Opt_s 2000000]\<rparr>"

definition preload_low_frequency_env :: env where
  "preload_low_frequency_env = quiet_env\<lparr>opts := [Opt_f 1, Opt_i ''input.raw'']\<rparr>"

definition no_input_env :: env where
  "no_input_env = quiet_env\<lparr>opts := [Opt_f 100000000, Opt_s 2000000]\<rparr>"

text \<open>
  A command line in range for the streaming program, with an empty input and a hardware
  that rejects every buffer pushed.
\<close>

definition zed_push_failure_env :: env where
  "zed_push_failure_env =
     quiet_env\<lparr>opts := [Opt_f 100000000, Opt_s 2000000], push_result := (\<lambda>k. - 1)\<rparr>"

text \<open>
  The environment \<open>quiet_env\<close> with buffers of three slots; the streaming program
  entering its loop with the samples 100, -200, 300 on the standard input; and the
  preloading program at the start of a pass over the same three samples.
\<close>

definition wide_env :: env where
  "wide_env = quiet_env\<lparr>buffer_slots := (\<lambda>k. 3)\<rparr>"

definition stream_start :: zed_state where
  "stream_start =
     \<lparr>stop = False,
      deviation_scale = 10000 / 32767,
      time_per_sample = 1 / 2000000,
      trace = [],
      stop_reads = 0,
      pushes = 0,
      signal_phase = 0,
      stdin_rest = [Some 100, Some (- 200), Some 300]\<rparr>"

definition file_start :: preload_state where
  "file_start = pass_start\<lparr>samples := [100, - 200, 300], total_samples := 3\<rparr>"


section \<open>Facts about the numeric model\<close>

lemma sint_to_int16:
  assumes "- 32768 \<le> trunc_toward_zero d" "trunc_toward_zero d \<le> 32767"
  shows "sint (to_int16 d) = trunc_toward_zero d"
proof -
  have "(trunc_toward_zero d + 32768) mod 65536 = trunc_toward_zero d + 32768"
    using assms by (intro mod_pos_pos_trivial) simp_all
  then show ?thesis
    by (simp add: to_int16_def int_word_sint)
qed

lemma trunc_scaled_bounds:
  assumes "\<bar>x\<bar> \<le> 1"
  shows "- 32767 \<le> trunc_toward_zero (x * 32767)" "trunc_toward_zero (x * 32767) \<le> 32767"
  using assms unfolding trunc_toward_zero_def
  by (auto simp: le_floor_iff floor_le_iff ceiling_le_iff le_ceiling_iff abs_le_iff)

lemma sint_to_int16_scaled:
  assumes "\<bar>x\<bar> \<le> 1"
  shows "sint (to_int16 (x * 32767)) = trunc_toward_zero (x * 32767)"
  using trunc_scaled_bounds [OF assms] by (intro sint_to_int16) simp_all

lemma fmod_nonneg:
  assumes "0 < y" "0 \<le> x"
  shows "0 \<le> fmod x y" "fmod x y < y"
proof -
  have q: "0 \<le> x / y" using assms by simp
  have "real_of_int \<lfloor>x / y\<rfloor> * y \<le> x"
    using assms(1) of_int_floor_le [of "x / y"] by (simp only: pos_le_divide_eq)
  then show "0 \<le> fmod x y" using q by (simp add: fmod_def trunc_toward_zero_def)
  have "x / y < real_of_int \<lfloor>x / y\<rfloor> + 1" by linarith
  with assms(1) have "x < (real_of_int \<lfloor>x / y\<rfloor> + 1) * y"
    by (simp only: pos_divide_less_eq)
  then show "fmod x y < y" using q by (simp add: fmod_def trunc_toward_zero_def algebra_simps)
qed

lemma fmod_neg:
  assumes "0 < y" "x < 0"
  shows "- y < fmod x y" "fmod x y \<le> 0"
proof -
  have q: "\<not> 0 \<le> x / y" using assms by (simp add: divide_less_0_iff not_le)
  have "x \<le> real_of_int \<lceil>x / y\<rceil> * y"
    using assms(1) le_of_int_ceiling [of "x / y"] by (simp only: pos_divide_le_eq)
  then show "fmod x y \<le> 0" using q by (simp add: fmod_def trunc_toward_zero_def)
  have "real_of_int \<lceil>x / y\<rceil> - 1 < x / y" by linarith
  with assms(1) have "(real_of_int \<lceil>x / y\<rceil> - 1) * y < x"
    by (simp only: pos_less_divide_eq)
  then show "- y < fmod x y" using q by (simp add: fmod_def trunc_toward_zero_def algebra_simps)
qed

lemma fmod_abs_less:
  assumes "0 < y"
  shows "\<bar>fmod x y\<bar> < y"
proof (cases "0 \<le> x")
  case True
  with fmod_nonneg [OF assms, of x] show ?thesis by simp
next
  case False
  with fmod_neg [OF assms, of x] show ?thesis by simp
qed


lemma fmod_small_neg:
  assumes "x \<le> 0" "- y < x"
  shows "fmod x y = x"
proof (cases "x = 0")
  case True
  then show ?thesis by (simp add: fmod_def trunc_toward_zero_def)
next
  case False
  then have "x < 0" "0 < y" using assms by simp_all
  then have "x / y < 0" "- 1 < x / y"
    using assms by (simp_all add: divide_less_0_iff pos_less_divide_eq)
  then have "\<lceil>x / y\<rceil> = 0" by (simp add: ceiling_eq_iff)
  then show ?thesis using \<open>x / y < 0\<close> by (simp add: fmod_def trunc_toward_zero_def)
qed

lemma two_pi_pos: "0 < 2 * pi"
  by simp

lemma fmod_zero_two_pi: "fmod 0 (2 * pi) = 0"
  by (simp add: fmod_def trunc_toward_zero_def)

lemma to_int16_full_scale: "to_int16 32767 = 32767" "to_int16 0 = 0"
  by (simp_all add: to_int16_def trunc_toward_zero_def)

lemma zed_modulate_zero:
  "zed_modulate_sample 0 0 sc tp = \<lparr>i_sample = 32767, q_sample = 0, signal = 0\<rparr>"
  by (simp add: zed_modulate_sample_def MAX_SAMPLE_VALUE_def fmod_zero_two_pi to_int16_full_scale)

lemma preload_modulate_is_zed:
  "preload_modulate_sample d s =
     (let m = zed_modulate_sample d (phase_accum s) (deviation_scale s) (time_per_sample s)
      in (i_sample m, q_sample m, s\<lparr>phase_accum := signal m\<rparr>))"
  by (simp add: preload_modulate_sample_def zed_modulate_sample_def Let_def MAX_SAMPLE_VALUE_def)


section \<open>Facts about the operations of \<^verbatim>\<open>double\<close>\<close>

lemma finite_result_in_range: "\<bar>x\<bar> \<le> DBL_MAX \<Longrightarrow> finite_result x = Finite x"
  by (auto simp: finite_result_def abs_le_iff)

lemma DBL_MAX_large: "262145 * 10 ^ 300 \<le> DBL_MAX"
  by (simp add: DBL_MAX_def)

lemma DBL_MAX_small: "DBL_MAX < 4 * 10 ^ 308"
  by (simp add: DBL_MAX_def)

lemma DBL_MAX_above_1e308: "10 ^ 308 \<le> DBL_MAX"
  by (simp add: DBL_MAX_def)

lemma sint16_abs: "\<bar>real_of_int (sint (d :: int16))\<bar> \<le> 32768"
proof -
  have "\<bar>sint d\<bar> \<le> 32768"
    using sint_ge [of d] sint_lt [of d] by simp
  then have "real_of_int \<bar>sint d\<bar> \<le> real_of_int 32768"
    by (simp only: of_int_le_iff)
  then show ?thesis
    by (simp only: of_int_abs of_int_numeral)
qed

lemma two_pi_double: "double_mul (Finite 2) M_PI = Finite (2 * pi)"
proof -
  have "\<bar>2 * pi\<bar> \<le> 8"
    using pi_less_4 by simp
  also have "8 \<le> DBL_MAX"
    using DBL_MAX_large by simp
  finally show ?thesis
    by (simp add: M_PI_def finite_result_in_range)
qed

lemma increment_bound:
  assumes "\<bar>sc\<bar> \<le> 10 ^ 300" "\<bar>tp\<bar> \<le> 1"
  shows "\<bar>real_of_int (sint (d :: int16)) * sc\<bar> \<le> 32768 * 10 ^ 300"
    and "\<bar>2 * pi * (real_of_int (sint d) * sc)\<bar> \<le> 262144 * 10 ^ 300"
    and "\<bar>2 * pi * (real_of_int (sint d) * sc) * tp\<bar> \<le> 262144 * 10 ^ 300"
proof -
  show a: "\<bar>real_of_int (sint d) * sc\<bar> \<le> 32768 * 10 ^ 300"
    unfolding abs_mult using sint16_abs [of d] assms(1) by (intro mult_mono) simp_all
  have "\<bar>2 * pi\<bar> \<le> 8"
    using pi_less_4 by simp
  then have "\<bar>2 * pi\<bar> * \<bar>real_of_int (sint d) * sc\<bar> \<le> 8 * (32768 * 10 ^ 300)"
    using a by (intro mult_mono) simp_all
  then show b: "\<bar>2 * pi * (real_of_int (sint d) * sc)\<bar> \<le> 262144 * 10 ^ 300"
    by (simp add: abs_mult)
  have "\<bar>2 * pi * (real_of_int (sint d) * sc)\<bar> * \<bar>tp\<bar> \<le> 262144 * 10 ^ 300 * 1"
    using b assms(2) by (intro mult_mono) simp_all
  then show "\<bar>2 * pi * (real_of_int (sint d) * sc) * tp\<bar> \<le> 262144 * 10 ^ 300"
    by (simp add: abs_mult)
qed

lemma double_phase_sum_finite:
  assumes "\<bar>ph\<bar> \<le> 10 ^ 300" "\<bar>sc\<bar> \<le> 10 ^ 300" "\<bar>tp\<bar> \<le> 1"
  shows "double_phase_sum d (Finite ph) (Finite sc) (Finite tp)
      = Finite (ph + 2 * pi * (real_of_int (sint d) * sc) * tp)"
proof -
  note b = increment_bound [OF assms(2,3), of d]
  have r1: "\<bar>real_of_int (sint d) * sc\<bar> \<le> DBL_MAX"
    using b(1) DBL_MAX_large by linarith
  have r2: "\<bar>2 * pi * (real_of_int (sint d) * sc)\<bar> \<le> DBL_MAX"
    using b(2) DBL_MAX_large by linarith
  have r3: "\<bar>2 * pi * (real_of_int (sint d) * sc) * tp\<bar> \<le> DBL_MAX"
    using b(3) DBL_MAX_large by linarith
  have r4: "\<bar>ph + 2 * pi * (real_of_int (sint d) * sc) * tp\<bar> \<le> DBL_MAX"
    using assms(1) b(3) DBL_MAX_large by linarith
  show ?thesis
    unfolding double_phase_sum_def two_pi_double double_mul.simps double_add.simps
      finite_result_in_range [OF r1] finite_result_in_range [OF r2]
      finite_result_in_range [OF r3] finite_result_in_range [OF r4] ..
qed

lemma double_modulate_phase:
  "signal_out (double_modulate_sample d s0 sc tp)
     = double_fmod (double_phase_sum d s0 sc tp) (Finite (2 * pi))"
  by (simp add: double_modulate_sample_def double_phase_sum_def Let_def two_pi_double)

lemma double_fmod_two_pi:
  "double_fmod x (Finite (2 * pi)) = (case x of Finite a \<Rightarrow> Finite (fmod a (2 * pi)) | _ \<Rightarrow> NaN)"
  by (cases x) simp_all

lemma scaled_in_range: "\<bar>x\<bar> \<le> 1 \<Longrightarrow> finite_result (x * 32767) = Finite (x * 32767)"
proof (rule finite_result_in_range)
  assume "\<bar>x\<bar> \<le> 1"
  then have "\<bar>x * 32767\<bar> \<le> 32767" by simp
  also have "32767 \<le> DBL_MAX" using DBL_MAX_large by simp
  finally show "\<bar>x * 32767\<bar> \<le> DBL_MAX" .
qed

lemma double_to_int16_scaled:
  assumes "\<bar>x\<bar> \<le> 1"
  shows "double_to_int16 (Finite (x * 32767)) = Some (to_int16 (x * 32767))"
proof -
  have "- 32768 \<le> trunc_toward_zero (x * 32767)" "trunc_toward_zero (x * 32767) \<le> 32767"
    using trunc_scaled_bounds [OF assms] by linarith+
  then show ?thesis
    by (simp add: to_int16_def)
qed

lemma double_modulate_outputs:
  "i_out (double_modulate_sample d s0 sc tp)
     = (case signal_out (double_modulate_sample d s0 sc tp) of
          Finite a \<Rightarrow> Some (to_int16 (cos a * 32767)) | _ \<Rightarrow> None)"
  "q_out (double_modulate_sample d s0 sc tp)
     = (case signal_out (double_modulate_sample d s0 sc tp) of
          Finite a \<Rightarrow> Some (to_int16 (sin a * 32767)) | _ \<Rightarrow> None)"
proof -
  have c: "\<bar>cos x\<bar> \<le> 1" and sn: "\<bar>sin x\<bar> \<le> 1" for x :: real
    by simp_all
  show "i_out (double_modulate_sample d s0 sc tp)
     = (case signal_out (double_modulate_sample d s0 sc tp) of
          Finite a \<Rightarrow> Some (to_int16 (cos a * 32767)) | _ \<Rightarrow> None)"
    by (cases "signal_out (double_modulate_sample d s0 sc tp)")
      (simp_all add: double_modulate_sample_def Let_def MAX_SAMPLE_VALUE_def
        scaled_in_range [OF c] double_to_int16_scaled [OF c] del: double_to_int16.simps(1))
  show "q_out (double_modulate_sample d s0 sc tp)
     = (case signal_out (double_modulate_sample d s0 sc tp) of
          Finite a \<Rightarrow> Some (to_int16 (sin a * 32767)) | _ \<Rightarrow> None)"
    by (cases "signal_out (double_modulate_sample d s0 sc tp)")
      (simp_all add: double_modulate_sample_def Let_def MAX_SAMPLE_VALUE_def
        scaled_in_range [OF sn] double_to_int16_scaled [OF sn] del: double_to_int16.simps(1))
qed

lemma double_modulate_agrees:
  assumes "\<bar>ph\<bar> \<le> 10 ^ 300" "\<bar>sc\<bar> \<le> 10 ^ 300" "\<bar>tp\<bar> \<le> 1"
  shows "double_modulate_sample d (Finite ph) (Finite sc) (Finite tp)
      = \<lparr>i_out = Some (i_sample (zed_modulate_sample d ph sc tp)),
         q_out = Some (q_sample (zed_modulate_sample d ph sc tp)),
         signal_out = Finite (signal (zed_modulate_sample d ph sc tp))\<rparr>"
proof -
  have p: "signal_out (double_modulate_sample d (Finite ph) (Finite sc) (Finite tp))
      = Finite (signal (zed_modulate_sample d ph sc tp))"
    by (simp add: double_modulate_phase double_phase_sum_finite [OF assms]
        zed_modulate_sample_def Let_def)
  have i: "i_out (double_modulate_sample d (Finite ph) (Finite sc) (Finite tp))
      = Some (i_sample (zed_modulate_sample d ph sc tp))"
    unfolding double_modulate_outputs p
    by (simp add: zed_modulate_sample_def Let_def MAX_SAMPLE_VALUE_def)
  have q: "q_out (double_modulate_sample d (Finite ph) (Finite sc) (Finite tp))
      = Some (q_sample (zed_modulate_sample d ph sc tp))"
    unfolding double_modulate_outputs p
    by (simp add: zed_modulate_sample_def Let_def MAX_SAMPLE_VALUE_def)
  show ?thesis
    using p i q by (intro double_modulated.equality) simp_all
qed

lemma zed_deviation_scale_finite:
  assumes "\<bar>dh\<bar> \<le> 10 ^ 300"
  shows "zed_deviation_scale (Finite dh) = Finite (dh / 32767)" "\<bar>dh / 32767\<bar> \<le> 10 ^ 300"
proof -
  have "\<bar>dh / 32767\<bar> \<le> \<bar>dh\<bar>"
    by simp
  with assms show b: "\<bar>dh / 32767\<bar> \<le> 10 ^ 300"
    by linarith
  then have "\<bar>dh / 32767\<bar> \<le> DBL_MAX"
    using DBL_MAX_large by linarith
  then show "zed_deviation_scale (Finite dh) = Finite (dh / 32767)"
    by (simp add: zed_deviation_scale_def MAX_SAMPLE_VALUE_def finite_result_in_range)
qed

lemma preload_deviation_scale_finite: "preload_deviation_scale = Finite (7500 / 32767)"
proof -
  have "\<bar>7500 / 32767 :: real\<bar> \<le> DBL_MAX"
    using DBL_MAX_large by simp
  then show ?thesis
    unfolding preload_deviation_scale_def double_div.simps
    by (simp add: finite_result_in_range)
qed

lemma sample_period_finite:
  assumes "1 \<le> sr"
  shows "sample_period sr = Finite (1 / real_of_int sr)" "\<bar>1 / real_of_int sr\<bar> \<le> 1"
proof -
  from assms have p: "1 \<le> real_of_int sr"
    by simp
  then show b: "\<bar>1 / real_of_int sr\<bar> \<le> 1"
    by simp
  moreover have "(1 :: real) \<le> 262145 * 10 ^ 300"
    by simp
  ultimately have "\<bar>1 / real_of_int sr\<bar> \<le> DBL_MAX"
    using DBL_MAX_large by linarith
  with p show "sample_period sr = Finite (1 / real_of_int sr)"
    by (simp add: sample_period_def finite_result_in_range)
qed

lemma double_modulate_phase_cases:
  "signal_out (double_modulate_sample d s0 sc tp)
     = (case double_phase_sum d s0 sc tp of Finite y \<Rightarrow> Finite (fmod y (2 * pi)) | _ \<Rightarrow> NaN)"
  by (simp add: double_modulate_phase double_fmod_two_pi)

lemma double_modulate_phase_range:
  "signal_out (double_modulate_sample d s0 sc tp) = NaN
   \<or> (\<exists>x. signal_out (double_modulate_sample d s0 sc tp) = Finite x \<and> - (2 * pi) < x \<and> x < 2 * pi)"
proof (cases "double_phase_sum d s0 sc tp")
  case (Finite y)
  have "\<bar>fmod y (2 * pi)\<bar> < 2 * pi"
    by (rule fmod_abs_less [OF two_pi_pos])
  then have "- (2 * pi) < fmod y (2 * pi) \<and> fmod y (2 * pi) < 2 * pi"
    by (simp add: abs_less_iff)
  with Finite show ?thesis
    by (simp add: double_modulate_phase_cases)
qed (simp_all add: double_modulate_phase_cases)

lemma double_phase_after_append:
  "double_phase_after sc tp ph (ds @ [d])
     = signal_out (double_modulate_sample d (double_phase_after sc tp ph ds) sc tp)"
  by (induction ds arbitrary: ph) simp_all

lemma ten_300_large: "2 * pi \<le> 10 ^ 300"
proof -
  have "2 * pi \<le> 8"
    using pi_less_4 by simp
  also have "(8 :: real) \<le> 10 ^ 300"
    by simp
  finally show ?thesis .
qed

lemma fmod_sign_range:
  "0 \<le> y \<Longrightarrow> 0 \<le> fmod y (2 * pi) \<and> fmod y (2 * pi) < 2 * pi"
  "y < 0 \<Longrightarrow> - (2 * pi) < fmod y (2 * pi) \<and> fmod y (2 * pi) \<le> 0"
  using fmod_nonneg [OF two_pi_pos, of y] fmod_neg [OF two_pi_pos, of y] by simp_all

text \<open>
  \<^verbatim>\<open>tx-fm-zed-preload.c\<close> takes any integer from \<^verbatim>\<open>-s\<close>. With the sample rate 0 the
  sample period is infinite, and a modulator called with it leaves the phase NaN,
  whatever the sample and the phase before.
\<close>

lemma sample_period_zero: "sample_period 0 = Plus_infinity"
  by (simp add: sample_period_def infinity_of_sign_def)

lemma zero_sample_rate_phase:
  "signal_out (double_modulate_sample d (Finite ph) preload_deviation_scale (sample_period 0)) = NaN"
proof -
  define f where "f = real_of_int (sint d) * (7500 / 32767)"
  have "\<bar>f\<bar> \<le> 32768 * 10 ^ 300" "\<bar>2 * pi * f\<bar> \<le> 262144 * 10 ^ 300"
    unfolding f_def by (rule increment_bound [of "7500 / 32767" 1 d]; simp)+
  then have r: "finite_result f = Finite f" "finite_result (2 * pi * f) = Finite (2 * pi * f)"
    using DBL_MAX_large by (intro finite_result_in_range; linarith)+
  have s: "double_phase_sum d (Finite ph) (Finite (7500 / 32767)) Plus_infinity
      = double_add (Finite ph) (infinity_of_sign (sgn (2 * pi * f)))"
    unfolding double_phase_sum_def two_pi_double double_mul.simps f_def [symmetric] r
    by simp
  have "double_add (Finite ph) (infinity_of_sign (sgn (2 * pi * f))) \<noteq> Finite y" for y
    by (cases "0 < f"; cases "f < 0") (simp_all add: infinity_of_sign_def sgn_mult)
  with s have "double_phase_sum d (Finite ph) (Finite (7500 / 32767)) Plus_infinity \<noteq> Finite y"
    for y
    by simp
  then show ?thesis
    unfolding preload_deviation_scale_finite sample_period_zero double_modulate_phase_cases
    by (simp split: double.split)
qed


section \<open>The modulator: the formula\<close>






section \<open>Facts about traces and about one-pass modulation\<close>

lemma slot_writes_append: "slot_writes (a @ b) = slot_writes a @ slot_writes b"
  by (induction a rule: slot_writes.induct) simp_all

lemma written_slots_append: "written_slots (a @ b) = written_slots a @ written_slots b"
  by (induction a rule: written_slots.induct) simp_all

lemma source_reads_append: "source_reads (a @ b) = source_reads a + source_reads b"
  by (induction a rule: source_reads.induct) simp_all

lemma stop_writes_append: "stop_writes (a @ b) = stop_writes a @ stop_writes b"
  by (induction a rule: stop_writes.induct) simp_all

lemma deadlines_append: "deadlines (a @ b) = deadlines a @ deadlines b"
  by (induction a rule: deadlines.induct) simp_all

lemmas trace_append =
  slot_writes_append written_slots_append source_reads_append stop_writes_append deadlines_append

lemma spec_one_pass_append:
  "spec_one_pass sc tp ph (xs @ ys)
     = spec_one_pass sc tp ph xs @ spec_one_pass sc tp (spec_phase_after sc tp ph xs) ys"
  by (induction xs arbitrary: ph) simp_all

lemma spec_phase_after_append:
  "spec_phase_after sc tp ph (xs @ ys) = spec_phase_after sc tp (spec_phase_after sc tp ph xs) ys"
  by (induction xs arbitrary: ph) simp_all


lemma delivered_add:
  "delivered input (a + b) = delivered input a @ delivered (drop a input) b"
  by (induction input a rule: delivered.induct) simp_all

lemma exhausted_within_add:
  "exhausted_within input (a + b) = (exhausted_within input a \<or> exhausted_within (drop a input) b)"
  by (induction input a rule: exhausted_within.induct) simp_all


section \<open>The streaming program: filling one buffer\<close>

lemma delivered_Suc:
  "delivered input (Suc n) = hd (delivered input 1) # delivered (drop 1 input) n"
proof (cases input)
  case Nil
  then show ?thesis by simp
next
  case (Cons r rest)
  then show ?thesis by (cases r) simp_all
qed

lemma exhausted_within_Suc:
  "exhausted_within input (Suc n) = (exhausted_within input 1 \<or> exhausted_within (drop 1 input) n)"
  using exhausted_within_add [of input 1 n] by simp

lemma get_next_sample_value: "fst (get_next_sample s) = hd (delivered (stdin_rest s) 1)"
  by (simp add: get_next_sample_def split: list.split option.split)

lemma get_next_sample_fields:
  "deviation_scale (snd (get_next_sample s)) = deviation_scale s"
  "time_per_sample (snd (get_next_sample s)) = time_per_sample s"
  "pushes (snd (get_next_sample s)) = pushes s"
  "stop_reads (snd (get_next_sample s)) = stop_reads s"
  "signal_phase (snd (get_next_sample s)) = signal_phase s"
  "stdin_rest (snd (get_next_sample s)) = drop 1 (stdin_rest s)"
  "stop (snd (get_next_sample s)) = (stop s \<or> exhausted_within (stdin_rest s) 1)"
  "trace (snd (get_next_sample s))
     = trace s @ Source_read # (if exhausted_within (stdin_rest s) 1 then [Stop_assign True] else [])"
  by (simp_all add: get_next_sample_def assign_stop_def emit_def split: list.split option.split)

lemma zed_fill_Suc:
  "zed_fill k (Suc n) s =
     zed_fill (Suc k) n
       (emit (Slot_write k
                (i_sample (zed_modulate_sample (hd (delivered (stdin_rest s) 1)) (signal_phase s)
                   (deviation_scale s) (time_per_sample s)))
                (q_sample (zed_modulate_sample (hd (delivered (stdin_rest s) 1)) (signal_phase s)
                   (deviation_scale s) (time_per_sample s))))
          ((snd (get_next_sample s))
             \<lparr>signal_phase :=
                signal (zed_modulate_sample (hd (delivered (stdin_rest s) 1)) (signal_phase s)
                   (deviation_scale s) (time_per_sample s))\<rparr>))"
  by (simp add: Let_def split_def get_next_sample_value get_next_sample_fields)

lemma zed_fill_fields_all:
  "deviation_scale (zed_fill k n s) = deviation_scale s
   \<and> time_per_sample (zed_fill k n s) = time_per_sample s
   \<and> pushes (zed_fill k n s) = pushes s
   \<and> stop_reads (zed_fill k n s) = stop_reads s
   \<and> stdin_rest (zed_fill k n s) = drop n (stdin_rest s)"
proof (induction n arbitrary: k s)
  case 0
  show ?case by simp
next
  case (Suc n)
  show ?case
    by (simp add: zed_fill_Suc Suc emit_def get_next_sample_fields del: zed_fill.simps)
qed

lemmas zed_fill_fields =
  zed_fill_fields_all [THEN conjunct1]
  zed_fill_fields_all [THEN conjunct2, THEN conjunct1]
  zed_fill_fields_all [THEN conjunct2, THEN conjunct2, THEN conjunct1]
  zed_fill_fields_all [THEN conjunct2, THEN conjunct2, THEN conjunct2, THEN conjunct1]
  zed_fill_fields_all [THEN conjunct2, THEN conjunct2, THEN conjunct2, THEN conjunct2]

lemma zed_fill_stop:
  "stop (zed_fill k n s) = (stop s \<or> exhausted_within (stdin_rest s) n)"
proof (induction n arbitrary: k s)
  case 0
  show ?case by simp
next
  case (Suc n)
  show ?case
    unfolding zed_fill_Suc Suc exhausted_within_Suc [of _ n]
    by (simp add: emit_def get_next_sample_fields)
qed

lemma zed_fill_phase:
  "signal_phase (zed_fill k n s)
     = spec_phase_after (deviation_scale s) (time_per_sample s) (signal_phase s)
         (delivered (stdin_rest s) n)"
proof (induction n arbitrary: k s)
  case 0
  show ?case by simp
next
  case (Suc n)
  show ?case
    unfolding zed_fill_Suc Suc delivered_Suc [of _ n]
    by (simp add: emit_def get_next_sample_fields)
qed

lemma zed_fill_slot_writes:
  "slot_writes (trace (zed_fill k n s))
     = slot_writes (trace s)
         @ spec_one_pass (deviation_scale s) (time_per_sample s) (signal_phase s)
             (delivered (stdin_rest s) n)"
proof (induction n arbitrary: k s)
  case 0
  show ?case by simp
next
  case (Suc n)
  show ?case
    unfolding zed_fill_Suc Suc delivered_Suc [of _ n]
    by (simp add: emit_def get_next_sample_fields trace_append)
qed

lemma zed_fill_written_slots:
  "written_slots (trace (zed_fill k n s)) = written_slots (trace s) @ [k..<k + n]"
proof (induction n arbitrary: k s)
  case 0
  show ?case by simp
next
  case (Suc n)
  show ?case
    unfolding zed_fill_Suc Suc
    by (simp add: emit_def get_next_sample_fields trace_append upt_rec)
qed

lemma zed_fill_source_reads:
  "source_reads (trace (zed_fill k n s)) = source_reads (trace s) + n"
proof (induction n arbitrary: k s)
  case 0
  show ?case by simp
next
  case (Suc n)
  show ?case
    unfolding zed_fill_Suc Suc
    by (simp add: emit_def get_next_sample_fields trace_append)
qed

section \<open>The streaming program: the transmission loop\<close>

lemma zed_advanced_refl: "zed_advanced s s 0"
  by (simp add: zed_advanced_def)

lemma zed_advanced_trans:
  assumes "zed_advanced s s1 a" "zed_advanced s1 s2 b"
  shows "zed_advanced s s2 (a + b)"
  using assms
  by (simp add: zed_advanced_def delivered_add spec_one_pass_append spec_phase_after_append
      add.commute)

lemma zed_advanced_fill: "zed_advanced s (zed_fill k n s) n"
  by (simp add: zed_advanced_def zed_fill_slot_writes zed_fill_source_reads zed_fill_phase
      zed_fill_fields)

lemma deliver_fields:
  "deviation_scale (deliver e signal_handler s) = deviation_scale s"
  "time_per_sample (deliver e signal_handler s) = time_per_sample s"
  "pushes (deliver e signal_handler s) = pushes s"
  "stop_reads (deliver e signal_handler s) = Suc (stop_reads s)"
  "stop (deliver e signal_handler s) = (stop s \<or> sigint e (stop_reads s))"
  "trace (deliver e signal_handler s)
     = trace s @ (if sigint e (stop_reads s) then [Stop_assign True] else [])"
  "deviation_scale (deliver e handle_sig s) = deviation_scale s"
  "time_per_sample (deliver e handle_sig s) = time_per_sample s"
  "pushes (deliver e handle_sig s) = pushes s"
  "stop_reads (deliver e handle_sig s) = Suc (stop_reads s)"
  "stop (deliver e handle_sig s) = (stop s \<or> sigint e (stop_reads s))"
  "trace (deliver e handle_sig s)
     = trace s @ (if sigint e (stop_reads s) then [Stop_assign True] else [])"
  by (simp_all add: deliver_def signal_handler_def handle_sig_def assign_stop_def emit_def)

lemma zed_deliver_fields:
  "signal_phase (deliver e signal_handler s) = signal_phase s"
  "stdin_rest (deliver e signal_handler s) = stdin_rest s"
  by (simp_all add: deliver_def signal_handler_def assign_stop_def emit_def)

lemma zed_advanced_deliver: "zed_advanced s (deliver e signal_handler s) 0"
  by (simp add: zed_advanced_def deliver_fields zed_deliver_fields trace_append)

lemma zed_advanced_push:
  "zed_advanced s ((emit Buffer_push s)\<lparr>pushes := pushes s + 1\<rparr>) 0"
  by (simp add: zed_advanced_def emit_def trace_append)

lemma zed_advanced_stderr: "zed_advanced s (emit (Stderr msg) s) 0"
  by (simp add: zed_advanced_def emit_def trace_append)

lemma zed_loop_advanced: "\<exists>r. zed_advanced s (state_of (zed_loop n e s)) r"
proof (induction n arbitrary: s)
  case 0
  show ?case using zed_advanced_refl by auto
next
  case (Suc n)
  define s1 where "s1 = deliver e signal_handler s"
  define s2 where "s2 = zed_fill 0 (buffer_slots e (pushes s1)) s1"
  define s3 where "s3 = (emit Buffer_push s2)\<lparr>pushes := pushes s2 + 1\<rparr>"
  have a1: "zed_advanced s s1 0"
    unfolding s1_def by (rule zed_advanced_deliver)
  have a2: "zed_advanced s1 s2 (buffer_slots e (pushes s1))"
    unfolding s2_def by (rule zed_advanced_fill)
  have a3: "zed_advanced s2 s3 0"
    unfolding s3_def by (rule zed_advanced_push)
  have a13: "zed_advanced s s3 (buffer_slots e (pushes s1))"
    using zed_advanced_trans [OF zed_advanced_trans [OF a1 a2] a3] by simp
  consider (stopped) "stop s1"
    | (failed) "\<not> stop s1" "push_result e (pushes s2) < 0"
    | (pushed) "\<not> stop s1" "\<not> push_result e (pushes s2) < 0"
    by blast
  then show ?case
  proof cases
    case stopped
    then have "state_of (zed_loop (Suc n) e s) = s1"
      by (simp add: s1_def Let_def)
    with a1 show ?thesis by auto
  next
    case failed
    then have "state_of (zed_loop (Suc n) e s) = emit (Stderr ''Error pushing buffer'') s3"
      by (simp add: s1_def s2_def s3_def Let_def)
    moreover have "zed_advanced s (emit (Stderr ''Error pushing buffer'') s3)
        (buffer_slots e (pushes s1) + 0)"
      by (rule zed_advanced_trans [OF a13 zed_advanced_stderr])
    ultimately show ?thesis by auto
  next
    case pushed
    then have "state_of (zed_loop (Suc n) e s) = state_of (zed_loop n e s3)"
      by (simp add: s1_def s2_def s3_def Let_def)
    moreover obtain r where "zed_advanced s3 (state_of (zed_loop n e s3)) r"
      using Suc.IH by blast
    ultimately show ?thesis
      using zed_advanced_trans [OF a13] by auto
  qed
qed

section \<open>Exhaustion of the streaming source inside a buffer\<close>

text \<open>
  C5, as the code has it. The \<^verbatim>\<open>for\<close> loop of \<^verbatim>\<open>tx-fm-zed.c\<close> has no test of the
  flag: it reads the source once for every slot of the buffer and stores into every
  slot, in order, whatever the source delivers. A read that does not deliver a sample
  sets \<^verbatim>\<open>stop\<close> and counts as the sample 0, so the slots after the point of exhaustion
  hold the modulation of zeros at the phase reached, and the flag is set when the loop
  ends.
\<close>

theorem filler_pads_to_the_end_of_the_buffer:
  "written_slots (trace (zed_fill k n s)) = written_slots (trace s) @ [k..<k + n]
   \<and> source_reads (trace (zed_fill k n s)) = source_reads (trace s) + n
   \<and> slot_writes (trace (zed_fill k n s))
       = slot_writes (trace s)
           @ spec_one_pass (deviation_scale s) (time_per_sample s) (signal_phase s)
               (delivered (stdin_rest s) n)
   \<and> stop (zed_fill k n s) = (stop s \<or> exhausted_within (stdin_rest s) n)"
  by (simp add: zed_fill_written_slots zed_fill_source_reads zed_fill_slot_writes zed_fill_stop)

text \<open>
  C5 as stated has the filler stop at the point of exhaustion. From phase 0, with one
  sample 0 on the input and a buffer of three slots, the source is read three times and
  all three slots are stored into.
\<close>

theorem filler_continues_after_exhaustion:
  "trace (zed_fill 0 3
      \<lparr>stop = False, deviation_scale = 10000 / 32767, time_per_sample = 1 / 1000000,
       trace = [], stop_reads = 0, pushes = 0, signal_phase = 0, stdin_rest = [Some 0]\<rparr>)
   = [Source_read, Slot_write 0 32767 0,
      Source_read, Stop_assign True, Slot_write 1 32767 0,
      Source_read, Stop_assign True, Slot_write 2 32767 0]"
  by (simp add: numeral_3_eq_3 get_next_sample_def assign_stop_def emit_def zed_modulate_zero)

section \<open>The preloading program: filling one buffer\<close>

lemma samples_between_empty: "samples_between s a a = []"
  by (simp add: samples_between_def)

lemma samples_between_append:
  assumes "a \<le> b" "b \<le> c"
  shows "samples_between s a c = samples_between s a b @ samples_between s b c"
proof -
  have "[a..<c] = [a..<b] @ [b..<c]"
    using assms by (metis le_Suc_ex upt_add_eq_append)
  then show ?thesis
    by (simp add: samples_between_def)
qed

lemma samples_between_cong:
  "samples s' = samples s \<Longrightarrow> samples_between s' a b = samples_between s a b"
  by (simp add: samples_between_def)

lemma samples_between_Suc:
  "a < b \<Longrightarrow> samples_between s a b = samples s ! a # samples_between s (Suc a) b"
  by (simp add: samples_between_def upt_rec)

lemma preload_advanced_refl: "preload_advanced s s"
  by (simp add: preload_advanced_def samples_between_empty)

lemma preload_advanced_trans:
  assumes "preload_advanced s s1" "preload_advanced s1 s2"
  shows "preload_advanced s s2"
proof -
  have b: "samples_between s (index s) (index s2)
      = samples_between s (index s) (index s1) @ samples_between s1 (index s1) (index s2)"
    using assms samples_between_append [of "index s" "index s1" "index s2" s]
    by (simp add: preload_advanced_def samples_between_cong [of s1 s])
  have i: "index s2 \<le> max (index s) (total_samples s)"
    using assms by (simp add: preload_advanced_def) linarith
  show ?thesis
    using assms i unfolding b preload_advanced_def
    by (simp add: spec_one_pass_append spec_phase_after_append)
qed

lemma preload_fill_Suc:
  "preload_fill k (Suc n) s =
     (if index s < total_samples s
      then preload_fill (Suc k) n
        (emit (Slot_write k
                 (i_sample (zed_modulate_sample (samples s ! index s) (phase_accum s)
                    (deviation_scale s) (time_per_sample s)))
                 (q_sample (zed_modulate_sample (samples s ! index s) (phase_accum s)
                    (deviation_scale s) (time_per_sample s))))
           (s\<lparr>index := index s + 1,
              phase_accum := signal (zed_modulate_sample (samples s ! index s) (phase_accum s)
                    (deviation_scale s) (time_per_sample s))\<rparr>))
      else s)"
  by (simp add: preload_modulate_is_zed Let_def)

lemma preload_advanced_one:
  assumes "index s < total_samples s"
  shows "preload_advanced s
        (emit (Slot_write k
                 (i_sample (zed_modulate_sample (samples s ! index s) (phase_accum s)
                    (deviation_scale s) (time_per_sample s)))
                 (q_sample (zed_modulate_sample (samples s ! index s) (phase_accum s)
                    (deviation_scale s) (time_per_sample s))))
           (s\<lparr>index := index s + 1,
              phase_accum := signal (zed_modulate_sample (samples s ! index s) (phase_accum s)
                    (deviation_scale s) (time_per_sample s))\<rparr>))"
  using assms
  by (simp add: preload_advanced_def emit_def trace_append samples_between_Suc samples_between_empty)

lemma preload_advanced_fill: "preload_advanced s (preload_fill k n s)"
proof (induction n arbitrary: k s)
  case 0
  show ?case by (simp add: preload_advanced_refl)
next
  case (Suc n)
  show ?case
  proof (cases "index s < total_samples s")
    case True
    show ?thesis
      unfolding preload_fill_Suc if_P [OF True]
      by (rule preload_advanced_trans [OF preload_advanced_one [OF True] Suc.IH])
  next
    case False
    then show ?thesis
      unfolding preload_fill_Suc by (simp add: preload_advanced_refl)
  qed
qed

lemma preload_fill_fields_all:
  "stop (preload_fill k n s) = stop s
   \<and> pushes (preload_fill k n s) = pushes s
   \<and> stop_reads (preload_fill k n s) = stop_reads s
   \<and> t (preload_fill k n s) = t s
   \<and> clock_reads (preload_fill k n s) = clock_reads s
   \<and> stop_writes (trace (preload_fill k n s)) = stop_writes (trace s)
   \<and> deadlines (trace (preload_fill k n s)) = deadlines (trace s)
   \<and> index (preload_fill k n s) = min (index s + n) (max (index s) (total_samples s))"
proof (induction n arbitrary: k s)
  case 0
  show ?case by simp
next
  case (Suc n)
  show ?case
    by (simp add: preload_fill_Suc Suc emit_def trace_append del: preload_fill.simps)
qed

lemmas preload_fill_fields =
  preload_fill_fields_all [THEN conjunct1]
  preload_fill_fields_all [THEN conjunct2, THEN conjunct1]
  preload_fill_fields_all [THEN conjunct2, THEN conjunct2, THEN conjunct1]
  preload_fill_fields_all [THEN conjunct2, THEN conjunct2, THEN conjunct2, THEN conjunct1]
  preload_fill_fields_all [THEN conjunct2, THEN conjunct2, THEN conjunct2, THEN conjunct2, THEN conjunct1]
  preload_fill_fields_all [THEN conjunct2, THEN conjunct2, THEN conjunct2, THEN conjunct2, THEN conjunct2,
    THEN conjunct1]
  preload_fill_fields_all [THEN conjunct2, THEN conjunct2, THEN conjunct2, THEN conjunct2, THEN conjunct2,
    THEN conjunct2, THEN conjunct1]
  preload_fill_fields_all [THEN conjunct2, THEN conjunct2, THEN conjunct2, THEN conjunct2, THEN conjunct2,
    THEN conjunct2, THEN conjunct2]

section \<open>The preloading program: one pass\<close>

lemma preload_deliver_fields:
  "phase_accum (deliver e handle_sig s) = phase_accum s"
  "samples (deliver e handle_sig s) = samples s"
  "total_samples (deliver e handle_sig s) = total_samples s"
  "index (deliver e handle_sig s) = index s"
  "t (deliver e handle_sig s) = t s"
  "clock_reads (deliver e handle_sig s) = clock_reads s"
  by (simp_all add: deliver_def handle_sig_def assign_stop_def emit_def)

lemma preload_advanced_deliver: "preload_advanced s (deliver e handle_sig s)"
  by (simp add: preload_advanced_def deliver_fields preload_deliver_fields trace_append
      samples_between_empty)

lemma preload_advanced_pace:
  "preload_advanced s
     (wait_until ts (((emit Buffer_push s)\<lparr>pushes := p\<rparr>)\<lparr>t := ts\<rparr>))"
  by (simp add: preload_advanced_def wait_until_def emit_def trace_append samples_between_empty)

lemma preload_pass_Suc:
  "preload_pass (Suc n) e s =
     (if \<not> stop (deliver e handle_sig s)
         \<and> index (deliver e handle_sig s) < total_samples (deliver e handle_sig s)
      then preload_pass n e
        (wait_until (next_deadline (t s))
           (((emit Buffer_push (preload_fill 0 (buffer_slots e (pushes s)) (deliver e handle_sig s)))
               \<lparr>pushes := pushes s + 1\<rparr>)
               \<lparr>t := next_deadline (t s)\<rparr>))
      else Left (deliver e handle_sig s))"
  by (simp add: Let_def next_deadline_def deliver_fields preload_deliver_fields preload_fill_fields
      emit_def)

lemma preload_pass_advanced: "preload_advanced s (state_of (preload_pass n e s))"
proof (induction n arbitrary: s)
  case 0
  show ?case by (simp add: preload_advanced_refl)
next
  case (Suc n)
  show ?case
    unfolding preload_pass_Suc
    by (auto simp del: preload_pass.simps
        intro: preload_advanced_deliver
          preload_advanced_trans [OF preload_advanced_deliver
            preload_advanced_trans [OF preload_advanced_fill
              preload_advanced_trans [OF preload_advanced_pace Suc.IH]]])
qed

lemma preload_pass_left:
  "preload_pass n e s = Left s' \<Longrightarrow> stop s' \<or> total_samples s' \<le> index s'"
proof (induction n arbitrary: s)
  case 0
  then show ?case by simp
next
  case (Suc n)
  from Suc.prems show ?case
    unfolding preload_pass_Suc
    by (auto simp del: preload_pass.simps split: if_splits dest: Suc.IH)
qed

lemma preload_paced_refl: "preload_paced s s"
  by (simp add: preload_paced_def)

lemma preload_pass_paced: "preload_paced s (state_of (preload_pass n e s))"
proof (induction n arbitrary: s)
  case 0
  show ?case by (simp add: preload_paced_refl)
next
  case (Suc n)
  define s5 where "s5 = wait_until (next_deadline (t s))
           (((emit Buffer_push (preload_fill 0 (buffer_slots e (pushes s)) (deliver e handle_sig s)))
               \<lparr>pushes := pushes s + 1\<rparr>)
               \<lparr>t := next_deadline (t s)\<rparr>)"
  have f: "pushes s5 = Suc (pushes s)" "t s5 = next_deadline (t s)"
    "deadlines (trace s5) = deadlines (trace s) @ [next_deadline (t s)]"
    by (simp_all add: s5_def wait_until_def emit_def trace_append preload_fill_fields deliver_fields)
  have step: "preload_paced s s'" if "preload_paced s5 s'" for s'
  proof -
    from that f have p: "Suc (pushes s) \<le> pushes s'"
      by (simp add: preload_paced_def)
    then obtain m where m: "pushes s' - pushes s = Suc m" "pushes s' - Suc (pushes s) = m"
      by (metis Suc_diff_Suc Suc_le_lessD diff_Suc_eq_diff_pred diff_Suc_1)
    show ?thesis
      using that p unfolding preload_paced_def f m
      by (simp add: funpow_swap1)
  qed
  show ?case
    unfolding preload_pass_Suc s5_def [symmetric]
    using step [OF Suc.IH [of s5]]
    by (simp add: preload_paced_def deliver_fields preload_deliver_fields trace_append
        del: preload_pass.simps)
qed

section \<open>Deadline arithmetic\<close>

lemma carry_seconds_normalises:
  "0 \<le> tv_nsec ts \<Longrightarrow>
     carry_seconds ts
       = \<lparr>tv_sec = tv_sec ts + tv_nsec ts div 1000000000, tv_nsec = tv_nsec ts mod 1000000000\<rparr>"
proof (induction ts rule: carry_seconds.induct)
  case (1 ts)
  show ?case
  proof (cases "tv_nsec ts \<ge> 1000000000")
    case True
    define x where "x = tv_nsec ts - 1000000000"
    have x: "tv_nsec ts = x + 1000000000" "0 \<le> x"
      using True by (simp_all add: x_def)
    have d: "(x + 1000000000) div 1000000000 = x div 1000000000 + 1"
      by (rule div_add_self2) simp
    have m: "(x + 1000000000) mod 1000000000 = x mod 1000000000"
      by (rule mod_add_self2)
    have "carry_seconds ts
        = carry_seconds (ts\<lparr>tv_nsec := tv_nsec ts - 1000000000, tv_sec := tv_sec ts + 1\<rparr>)"
      using True by (subst carry_seconds.simps) simp
    also have "\<dots> = \<lparr>tv_sec = tv_sec ts + 1 + x div 1000000000, tv_nsec = x mod 1000000000\<rparr>"
      using "1.IH" [OF True] x(2) by (simp add: x_def)
    finally show ?thesis
      unfolding x(1) d m by simp
  next
    case False
    then have "tv_nsec ts div 1000000000 = 0" "tv_nsec ts mod 1000000000 = tv_nsec ts"
      using "1.prems" by simp_all
    then show ?thesis
      using False by (subst carry_seconds.simps) simp
  qed
qed

lemma buffer_time_ns: "trunc_toward_zero (preload_DEFAULT_BUFFER_TIME * 1000000000) = 100000000"
  by (simp add: preload_DEFAULT_BUFFER_TIME_def trunc_toward_zero_def)

lemma next_deadline_normalised:
  "0 \<le> tv_nsec ts \<Longrightarrow>
     next_deadline ts
       = \<lparr>tv_sec = tv_sec ts + (tv_nsec ts + 100000000) div 1000000000,
          tv_nsec = (tv_nsec ts + 100000000) mod 1000000000\<rparr>"
  by (simp add: next_deadline_def buffer_time_ns time_add_ns_def carry_seconds_normalises)

lemma spec_deadline_zero:
  "0 \<le> tv_nsec ts \<Longrightarrow> tv_nsec ts < 1000000000 \<Longrightarrow> spec_deadline ts 0 = ts"
  by (simp add: spec_deadline_def)

lemma spec_deadline_add:
  "spec_deadline (spec_deadline ts a) b = spec_deadline ts (a + b)"
proof -
  define x where "x = tv_nsec ts + int a * 100000000"
  define y where "y = int b * 100000000"
  define B :: int where "B = 1000000000"
  have B: "B \<noteq> 0"
    by (simp add: B_def)
  have "(B * (x div B) + (x mod B + y)) div B = x div B + (x mod B + y) div B"
    using B by (rule div_mult_self4)
  then have d: "x div B + (x mod B + y) div B = (x + y) div B"
    by (simp add: add.assoc [symmetric])
  have m: "(x mod B + y) mod B = (x + y) mod B"
    by (rule mod_add_left_eq)
  have l: "spec_deadline (spec_deadline ts a) b
      = \<lparr>tv_sec = tv_sec ts + (x div B + (x mod B + y) div B), tv_nsec = (x mod B + y) mod B\<rparr>"
    by (simp add: spec_deadline_def x_def y_def B_def)
  have r: "spec_deadline ts (a + b) = \<lparr>tv_sec = tv_sec ts + (x + y) div B, tv_nsec = (x + y) mod B\<rparr>"
    by (simp add: spec_deadline_def x_def y_def B_def algebra_simps)
  show ?thesis
    unfolding l r d m ..
qed

lemma spec_deadline_bounds:
  "0 \<le> tv_nsec (spec_deadline ts n)" "tv_nsec (spec_deadline ts n) < 1000000000"
  by (simp_all add: spec_deadline_def)

lemma next_deadline_spec: "0 \<le> tv_nsec ts \<Longrightarrow> next_deadline ts = spec_deadline ts 1"
  by (simp add: next_deadline_normalised spec_deadline_def)

lemma funpow_next_deadline:
  assumes "0 \<le> tv_nsec ts" "tv_nsec ts < 1000000000"
  shows "(next_deadline ^^ n) ts = spec_deadline ts n"
proof (induction n)
  case 0
  show ?case using assms by (simp add: spec_deadline_zero)
next
  case (Suc n)
  have "next_deadline (spec_deadline ts n) = spec_deadline (spec_deadline ts n) 1"
    by (rule next_deadline_spec) (rule spec_deadline_bounds)
  then show ?case
    by (simp add: Suc spec_deadline_add)
qed

lemma upt_Suc_shift: "[0..<Suc n] = 0 # map Suc [0..<n]"
  by (simp only: map_Suc_upt upt_conv_Cons [OF zero_less_Suc])

lemma deadline_list_spec:
  assumes "0 \<le> tv_nsec ts" "tv_nsec ts < 1000000000"
  shows "deadline_list ts n = map (\<lambda>j. spec_deadline ts (Suc j)) [0..<n]"
  using assms
proof (induction n arbitrary: ts)
  case 0
  show ?case by simp
next
  case (Suc n)
  have n1: "next_deadline ts = spec_deadline ts 1"
    using Suc.prems by (simp add: next_deadline_spec)
  have "deadline_list (next_deadline ts) n
      = map (\<lambda>j. spec_deadline (spec_deadline ts 1) (Suc j)) [0..<n]"
    unfolding n1 by (rule Suc.IH) (rule spec_deadline_bounds)+
  also have "\<dots> = map (\<lambda>j. spec_deadline ts (Suc (Suc j))) [0..<n]"
    by (simp add: spec_deadline_add)
  finally have r: "deadline_list (next_deadline ts) n
      = map (\<lambda>j. spec_deadline ts (Suc (Suc j))) [0..<n]" .
  show ?case
    unfolding deadline_list.simps r upt_Suc_shift [of n] by (simp add: n1 comp_def)
qed

lemma nanoseconds_spec_deadline:
  "nanoseconds (spec_deadline ts n) = nanoseconds ts + int n * 100000000"
  by (simp add: nanoseconds_def spec_deadline_def algebra_simps)

section \<open>Deadlines inside a pass\<close>

text \<open>
  C4, as the code has it. Inside one pass of the preloading program, from a deadline
  whose nanoseconds are in range (as \<^verbatim>\<open>clock_gettime\<close> delivers it), the deadline after
  \<open>N\<close> buffers is the deadline at the start of the pass plus \<open>N\<close> times 100 000 000 ns
  exactly, the overflow of the nanoseconds carried into the seconds; every deadline
  waited for on the way is the start plus a whole number of buffer durations; nothing
  read from the clock enters. The nanoseconds stay in range, so the next addition fits
  a 32-bit \<^verbatim>\<open>long\<close>. The start of a pass is a new reading of the clock.
\<close>

theorem deadlines_within_a_pass:
  assumes "0 \<le> tv_nsec (t s)" and "tv_nsec (t s) < 1000000000"
  shows "t (state_of (preload_pass n e s))
           = spec_deadline (t s) (pushes (state_of (preload_pass n e s)) - pushes s)
         \<and> deadlines (trace (state_of (preload_pass n e s)))
           = deadlines (trace s)
               @ map (\<lambda>j. spec_deadline (t s) (Suc j))
                   [0..<pushes (state_of (preload_pass n e s)) - pushes s]
         \<and> nanoseconds (t (state_of (preload_pass n e s)))
           = nanoseconds (t s) + int (pushes (state_of (preload_pass n e s)) - pushes s) * 100000000
         \<and> 0 \<le> tv_nsec (t (state_of (preload_pass n e s)))
         \<and> tv_nsec (t (state_of (preload_pass n e s))) + 100000000 < 2 ^ 31"
proof -
  define s' where "s' = state_of (preload_pass n e s)"
  have p: "preload_paced s s'"
    unfolding s'_def by (rule preload_pass_paced)
  then have ts': "t s' = spec_deadline (t s) (pushes s' - pushes s)"
    by (simp add: preload_paced_def funpow_next_deadline [OF assms])
  have "tv_nsec (t s') < 1000000000"
    unfolding ts' by (rule spec_deadline_bounds)
  then have "tv_nsec (t s') + 100000000 < 2 ^ 31"
    by simp
  moreover have "0 \<le> tv_nsec (t s')"
    unfolding ts' by (rule spec_deadline_bounds)
  moreover have "deadlines (trace s')
      = deadlines (trace s) @ map (\<lambda>j. spec_deadline (t s) (Suc j)) [0..<pushes s' - pushes s]"
    using p by (simp add: preload_paced_def deadline_list_spec [OF assms])
  ultimately show ?thesis
    unfolding s'_def [symmetric] using ts' by (simp add: nanoseconds_spec_deadline)
qed

lemma pass_start_run:
  "preload_pass 2 quiet_env pass_start = Inside
     (pass_start\<lparr>trace := [Slot_write 0 32767 0, Buffer_push,
                             Wait_until \<lparr>tv_sec = 6, tv_nsec = 50000000\<rparr>,
                             Slot_write 0 32767 0, Buffer_push,
                             Wait_until \<lparr>tv_sec = 6, tv_nsec = 150000000\<rparr>],
                  stop_reads := 2, pushes := 2, index := 2,
                  t := \<lparr>tv_sec = 6, tv_nsec = 150000000\<rparr>\<rparr>)"
  by (simp add: numeral_2_eq_2 preload_pass_Suc deliver_def preload_fill_Suc quiet_env_def
      pass_start_def emit_def wait_until_def zed_modulate_zero next_deadline_normalised
      del: preload_pass.simps(2) preload_fill.simps(2))

theorem deadlines_within_a_pass_witness:
  "0 \<le> tv_nsec (t pass_start) \<and> tv_nsec (t pass_start) < 1000000000
   \<and> pushes (state_of (preload_pass 2 quiet_env pass_start)) - pushes pass_start = 2
   \<and> t (state_of (preload_pass 2 quiet_env pass_start)) = \<lparr>tv_sec = 6, tv_nsec = 150000000\<rparr>
   \<and> deadlines (trace (state_of (preload_pass 2 quiet_env pass_start)))
       = [\<lparr>tv_sec = 6, tv_nsec = 50000000\<rparr>, \<lparr>tv_sec = 6, tv_nsec = 150000000\<rparr>]
   \<and> spec_deadline (t pass_start) 2 = \<lparr>tv_sec = 6, tv_nsec = 150000000\<rparr>"
proof -
  have a: "0 \<le> tv_nsec (t pass_start)" and b: "tv_nsec (t pass_start) < 1000000000"
    by (simp_all add: pass_start_def)
  have p: "pushes (state_of (preload_pass 2 quiet_env pass_start)) - pushes pass_start = 2"
    by (simp add: pass_start_run) (simp add: pass_start_def)
  have sd: "spec_deadline (t pass_start) 2 = \<lparr>tv_sec = 6, tv_nsec = 150000000\<rparr>"
      "spec_deadline (t pass_start) (Suc (Suc 0)) = \<lparr>tv_sec = 6, tv_nsec = 150000000\<rparr>"
      "spec_deadline (t pass_start) (Suc 0) = \<lparr>tv_sec = 6, tv_nsec = 50000000\<rparr>"
    by (simp_all add: spec_deadline_def pass_start_def)
  have u: "[0..<2] = [0, Suc 0]"
    by (simp add: upt_rec)
  have tr: "deadlines (trace pass_start) = []"
    by (simp add: pass_start_def)
  show ?thesis
    using deadlines_within_a_pass [OF a b, of 2 quiet_env] a b
    unfolding p u tr by (simp add: sd)
qed

section \<open>The preloading program: the passes\<close>

lemma preload_loop_Suc:
  "preload_loop (Suc n) e s =
     (if stop (deliver e handle_sig s) then Left (deliver e handle_sig s)
      else
        (case preload_pass n e
                ((deliver e handle_sig s)
                   \<lparr>phase_accum := 0, index := 0,
                    t := clock e (clock_reads s), clock_reads := clock_reads s + 1\<rparr>) of
           Inside s3 \<Rightarrow> Inside s3
         | Left s3 \<Rightarrow> preload_loop n e s3))"
  by (simp add: Let_def preload_deliver_fields)

declare preload_loop.simps(2) [simp del]









section \<open>The deadline from pass to pass\<close>

text \<open>
  C4 as stated takes the deadline after \<open>N\<close> buffers of the whole transmission loop to be
  the first deadline plus \<open>N\<close> durations. With a file of one sample each pass is one
  buffer, and the outer loop reads the clock again for every pass: when the clock is
  150 ms further at each reading, the second deadline is 250 ms, not 200 ms.
\<close>

theorem deadline_is_rebased_at_every_pass:
  "deadlines (snd (preload_main 3 late_env))
     = [\<lparr>tv_sec = 0, tv_nsec = 100000000\<rparr>, \<lparr>tv_sec = 0, tv_nsec = 250000000\<rparr>]
   \<and> spec_deadline (clock late_env 0) 2 = \<lparr>tv_sec = 0, tv_nsec = 200000000\<rparr>"
  by (simp add: preload_main_def preload_start_def late_env_def quiet_env_def preload_configure_def
      numeral_3_eq_3 preload_loop_Suc preload_pass_Suc deliver_def preload_fill_Suc
      emit_def wait_until_def zed_modulate_zero next_deadline_normalised spec_deadline_def
      del: preload_pass.simps(2) preload_fill.simps(2))

section \<open>The range of the phase\<close>

lemma zed_modulate_phase_bound: "\<bar>signal (zed_modulate_sample d ph sc tp)\<bar> < 2 * pi"
  by (simp add: zed_modulate_sample_def Let_def fmod_abs_less [OF two_pi_pos])

lemma spec_phase_after_bound:
  assumes "ds \<noteq> []"
  shows "\<bar>spec_phase_after sc tp ph ds\<bar> < 2 * pi"
proof -
  from assms obtain ys y where "ds = ys @ [y]"
    by (cases ds rule: rev_cases) auto
  then show ?thesis
    by (simp add: spec_phase_after_append zed_modulate_phase_bound)
qed

lemma double_phase_after_agrees:
  assumes "\<bar>sc\<bar> \<le> 10 ^ 300" "\<bar>tp\<bar> \<le> 1"
  shows "\<bar>ph\<bar> \<le> 10 ^ 300 \<Longrightarrow>
    double_phase_after (Finite sc) (Finite tp) (Finite ph) ds = Finite (spec_phase_after sc tp ph ds)"
proof (induction ds arbitrary: ph)
  case Nil
  show ?case by simp
next
  case (Cons d ds)
  have "\<bar>signal (zed_modulate_sample d ph sc tp)\<bar> \<le> 10 ^ 300"
    using zed_modulate_phase_bound [of d ph sc tp] ten_300_large by linarith
  from Cons.IH [OF this] show ?case
    by (simp add: double_modulate_agrees [OF Cons.prems assms])
qed

text \<open>
  C3, as the code has it, on the whole of \<^verbatim>\<open>double\<close>. Whatever the state and the sample,
  the phase after an update is NaN or lies strictly between \<open>- 2 * pi\<close> and \<open>2 * pi\<close>.
  When the sum of phase and increment is a number the new phase is what \<^verbatim>\<open>fmod\<close> makes
  of it and has its sign: it is in \<open>[0, 2 * pi)\<close> when the sum is not negative and in
  \<open>(- 2 * pi, 0]\<close> when it is negative. When the sum is not a number, because the scale
  or the sample period is not finite or a product exceeds \<^verbatim>\<open>DBL_MAX\<close>, the new phase is
  NaN. The same alternative holds after any sequence of samples that is not empty. With
  a phase and a scale of magnitude at most \<open>10 ^ 300\<close> and a sample period of at most 1
  the phase never is NaN, after any number of samples: it is the phase of the
  computation on real numbers. That is so for the preloading program with any sample
  rate of at least 1, and for the streaming program with such a sample rate and a
  deviation of magnitude at most \<open>10 ^ 300\<close>. In no case does the phase grow without
  bound.
\<close>

theorem phase_is_nan_or_within_one_turn:
  "(signal_out (double_modulate_sample d s0 sc tp) = NaN
      \<or> (\<exists>x. signal_out (double_modulate_sample d s0 sc tp) = Finite x
              \<and> - (2 * pi) < x \<and> x < 2 * pi))
   \<and> (\<forall>y. double_phase_sum d s0 sc tp = Finite y \<longrightarrow>
          signal_out (double_modulate_sample d s0 sc tp) = Finite (fmod y (2 * pi))
          \<and> (0 \<le> y \<longrightarrow> 0 \<le> fmod y (2 * pi) \<and> fmod y (2 * pi) < 2 * pi)
          \<and> (y < 0 \<longrightarrow> - (2 * pi) < fmod y (2 * pi) \<and> fmod y (2 * pi) \<le> 0))
   \<and> ((\<forall>y. double_phase_sum d s0 sc tp \<noteq> Finite y) \<longrightarrow>
         signal_out (double_modulate_sample d s0 sc tp) = NaN)
   \<and> (double_phase_after sc tp s0 (ds @ [d]) = NaN
      \<or> (\<exists>x. double_phase_after sc tp s0 (ds @ [d]) = Finite x \<and> - (2 * pi) < x \<and> x < 2 * pi))
   \<and> (\<bar>ph\<bar> \<le> 10 ^ 300 \<and> \<bar>c\<bar> \<le> 10 ^ 300 \<and> \<bar>p\<bar> \<le> 1 \<longrightarrow>
         double_phase_after (Finite c) (Finite p) (Finite ph) (ds @ [d])
           = Finite (spec_phase_after c p ph (ds @ [d]))
         \<and> - (2 * pi) < spec_phase_after c p ph (ds @ [d])
         \<and> spec_phase_after c p ph (ds @ [d]) < 2 * pi)
   \<and> (\<bar>dh\<bar> \<le> 10 ^ 300 \<and> 1 \<le> sr \<longrightarrow>
         (\<exists>x. double_phase_after (zed_deviation_scale (Finite dh)) (sample_period sr) (Finite 0)
                 (ds @ [d]) = Finite x
              \<and> - (2 * pi) < x \<and> x < 2 * pi))
   \<and> (1 \<le> sr \<longrightarrow>
         (\<exists>x. double_phase_after preload_deviation_scale (sample_period sr) (Finite 0)
                 (ds @ [d]) = Finite x
              \<and> - (2 * pi) < x \<and> x < 2 * pi))"
proof -
  have one: "signal_out (double_modulate_sample d s0 sc tp) = NaN
      \<or> (\<exists>x. signal_out (double_modulate_sample d s0 sc tp) = Finite x
              \<and> - (2 * pi) < x \<and> x < 2 * pi)"
    by (rule double_modulate_phase_range)
  have fin: "\<forall>y. double_phase_sum d s0 sc tp = Finite y \<longrightarrow>
          signal_out (double_modulate_sample d s0 sc tp) = Finite (fmod y (2 * pi))
          \<and> (0 \<le> y \<longrightarrow> 0 \<le> fmod y (2 * pi) \<and> fmod y (2 * pi) < 2 * pi)
          \<and> (y < 0 \<longrightarrow> - (2 * pi) < fmod y (2 * pi) \<and> fmod y (2 * pi) \<le> 0)"
    using fmod_sign_range by (simp add: double_modulate_phase_cases)
  have nan: "(\<forall>y. double_phase_sum d s0 sc tp \<noteq> Finite y) \<longrightarrow>
         signal_out (double_modulate_sample d s0 sc tp) = NaN"
    by (cases "double_phase_sum d s0 sc tp") (simp_all add: double_modulate_phase_cases)
  have many: "double_phase_after sc tp s0 (ds @ [d]) = NaN
      \<or> (\<exists>x. double_phase_after sc tp s0 (ds @ [d]) = Finite x \<and> - (2 * pi) < x \<and> x < 2 * pi)"
    unfolding double_phase_after_append by (rule double_modulate_phase_range)
  have b: "- (2 * pi) < spec_phase_after c' p' ph' (ds @ [d])
      \<and> spec_phase_after c' p' ph' (ds @ [d]) < 2 * pi" for c' p' ph'
    using spec_phase_after_bound [of "ds @ [d]" c' p' ph'] by (simp add: abs_less_iff)
  have bounded: "double_phase_after (Finite c') (Finite p') (Finite ph') (ds @ [d])
           = Finite (spec_phase_after c' p' ph' (ds @ [d]))
         \<and> - (2 * pi) < spec_phase_after c' p' ph' (ds @ [d])
         \<and> spec_phase_after c' p' ph' (ds @ [d]) < 2 * pi"
    if "\<bar>ph'\<bar> \<le> 10 ^ 300" "\<bar>c'\<bar> \<le> 10 ^ 300" "\<bar>p'\<bar> \<le> 1" for c' p' ph'
    using double_phase_after_agrees [OF that(2,3,1)] b by simp
  have zed: "\<exists>x. double_phase_after (zed_deviation_scale (Finite dh)) (sample_period sr) (Finite 0)
                 (ds @ [d]) = Finite x
              \<and> - (2 * pi) < x \<and> x < 2 * pi"
    if "\<bar>dh\<bar> \<le> 10 ^ 300" "1 \<le> sr"
    unfolding zed_deviation_scale_finite(1) [OF that(1)] sample_period_finite(1) [OF that(2)]
    using bounded [OF _ zed_deviation_scale_finite(2) [OF that(1)] sample_period_finite(2) [OF that(2)],
        of 0]
    by simp
  have preload: "\<exists>x. double_phase_after preload_deviation_scale (sample_period sr) (Finite 0)
                 (ds @ [d]) = Finite x
              \<and> - (2 * pi) < x \<and> x < 2 * pi"
    if "1 \<le> sr"
    unfolding preload_deviation_scale_finite sample_period_finite(1) [OF that]
    using bounded [OF _ _ sample_period_finite(2) [OF that], of 0 "7500 / 32767"]
    by simp
  show ?thesis
    using one fin nan many bounded [of ph c p] zed preload by blast
qed

lemma full_negative_increment:
  "fmod (0 + 2 * pi * (real_of_int (sint (- 32768 :: int16)) * (7500 / 32767)) * (1 / 2304000)) (2 * pi)
     = - (pi * 640 / 98301)"
proof -
  have "fmod (- (pi * 640 / 98301)) (2 * pi) = - (pi * 640 / 98301)"
    by (rule fmod_small_neg) simp_all
  then show ?thesis
    by (simp add: mult.commute)
qed

text \<open>
  The first sample -32768 in the preloading program at 2304000 samples per second: the
  sum of phase and increment is a number, it is negative, and so is the new phase.
\<close>

theorem phase_is_nan_or_within_one_turn_witness:
  "signal_out (double_modulate_sample (- 32768) (Finite 0) preload_deviation_scale
      (sample_period 2304000)) = Finite (- (pi * 640 / 98301))
   \<and> - (2 * pi) < - (pi * 640 / 98301) \<and> - (pi * 640 / 98301) \<le> 0
   \<and> double_phase_after preload_deviation_scale (sample_period 2304000) (Finite 0) [- 32768]
     = Finite (- (pi * 640 / 98301))"
proof -
  have sp: "sample_period 2304000 = Finite (1 / 2304000)"
    using sample_period_finite(1) [of 2304000] by simp
  have b: "\<bar>0 :: real\<bar> \<le> 10 ^ 300" "\<bar>7500 / 32767 :: real\<bar> \<le> 10 ^ 300"
    "\<bar>1 / 2304000 :: real\<bar> \<le> 1"
    by simp_all
  have sum: "double_phase_sum (- 32768) (Finite 0) (Finite (7500 / 32767)) (Finite (1 / 2304000))
      = Finite (0 + 2 * pi * (real_of_int (sint (- 32768 :: int16)) * (7500 / 32767)) * (1 / 2304000))"
    by (rule double_phase_sum_finite [OF b])
  have neg: "0 + 2 * pi * (real_of_int (sint (- 32768 :: int16)) * (7500 / 32767)) * (1 / 2304000) < 0"
    by simp
  note t = phase_is_nan_or_within_one_turn
    [where d = "- 32768" and ?s0.0 = "Finite 0" and sc = "Finite (7500 / 32767)"
       and tp = "Finite (1 / 2304000)" and ds = "[]" and ph = 0 and c = "7500 / 32767"
       and p = "1 / 2304000" and dh = 10000 and sr = 2304000]
  from t sum neg have
    "signal_out (double_modulate_sample (- 32768) (Finite 0) (Finite (7500 / 32767))
        (Finite (1 / 2304000)))
       = Finite (fmod (0 + 2 * pi * (real_of_int (sint (- 32768 :: int16)) * (7500 / 32767))
                         * (1 / 2304000)) (2 * pi))
     \<and> - (2 * pi) < fmod (0 + 2 * pi * (real_of_int (sint (- 32768 :: int16)) * (7500 / 32767))
                         * (1 / 2304000)) (2 * pi)
     \<and> fmod (0 + 2 * pi * (real_of_int (sint (- 32768 :: int16)) * (7500 / 32767))
                         * (1 / 2304000)) (2 * pi) \<le> 0"
    by blast
  then show ?thesis
    unfolding full_negative_increment preload_deviation_scale_finite sp
    by simp
qed

text \<open>
  C3 as stated puts the phase in \<open>[0, 2 * pi)\<close> also for negative samples. From phase 0,
  with the scale and the sample period of the preloading program, the sample -32768
  leaves a phase below \<open>- 1 / 100\<close>.
\<close>

theorem negative_phase_counterexample:
  "signal (zed_modulate_sample (- 32768) 0 (7500 / 32767) (1 / 2304000)) < - (1 / 100)"
proof -
  have "2 * 640 / 98301 \<le> pi * 640 / 98301"
    using pi_ge_two by simp
  then have "- (pi * 640 / 98301) < - (1 / 100)"
    by simp
  then show ?thesis
    unfolding zed_modulate_sample_def Let_def modulated.simps full_negative_increment .
qed

section \<open>The range of the samples\<close>

lemma double_modulate_nan:
  "signal_out (double_modulate_sample d s0 sc tp) = NaN \<Longrightarrow>
     i_out (double_modulate_sample d s0 sc tp) = None
     \<and> q_out (double_modulate_sample d s0 sc tp) = None"
  by (simp add: double_modulate_outputs)

lemma double_modulate_finite:
  assumes "signal_out (double_modulate_sample d s0 sc tp) = Finite x"
  shows "i_out (double_modulate_sample d s0 sc tp) = Some (to_int16 (cos x * 32767))"
    "q_out (double_modulate_sample d s0 sc tp) = Some (to_int16 (sin x * 32767))"
  using assms by (simp_all add: double_modulate_outputs)

lemma scaled_sample_range:
  "sint (to_int16 (cos x * 32767)) = trunc_toward_zero (cos x * 32767)"
  "sint (to_int16 (sin x * 32767)) = trunc_toward_zero (sin x * 32767)"
  "- 32767 \<le> sint (to_int16 (cos x * 32767))" "sint (to_int16 (cos x * 32767)) \<le> 32767"
  "- 32767 \<le> sint (to_int16 (sin x * 32767))" "sint (to_int16 (sin x * 32767)) \<le> 32767"
proof -
  have c: "\<bar>cos x\<bar> \<le> 1" and sn: "\<bar>sin x\<bar> \<le> 1"
    by simp_all
  show "sint (to_int16 (cos x * 32767)) = trunc_toward_zero (cos x * 32767)"
    by (rule sint_to_int16_scaled [OF c])
  show "sint (to_int16 (sin x * 32767)) = trunc_toward_zero (sin x * 32767)"
    by (rule sint_to_int16_scaled [OF sn])
  show "- 32767 \<le> sint (to_int16 (cos x * 32767))" "sint (to_int16 (cos x * 32767)) \<le> 32767"
    unfolding sint_to_int16_scaled [OF c] by (rule trunc_scaled_bounds [OF c])+
  show "- 32767 \<le> sint (to_int16 (sin x * 32767))" "sint (to_int16 (sin x * 32767)) \<le> 32767"
    unfolding sint_to_int16_scaled [OF sn] by (rule trunc_scaled_bounds [OF sn])+
qed

lemma double_samples_in_range:
  assumes "\<bar>ph\<bar> \<le> 10 ^ 300" "\<bar>c\<bar> \<le> 10 ^ 300" "\<bar>p\<bar> \<le> 1"
  shows "\<exists>i q. i_out (double_modulate_sample d
                   (double_phase_after (Finite c) (Finite p) (Finite ph) ds) (Finite c) (Finite p))
             = Some i
         \<and> q_out (double_modulate_sample d
                   (double_phase_after (Finite c) (Finite p) (Finite ph) ds) (Finite c) (Finite p))
             = Some q
         \<and> - 32767 \<le> sint i \<and> sint i \<le> 32767 \<and> - 32767 \<le> sint q \<and> sint q \<le> 32767"
proof -
  have "double_phase_after (Finite c) (Finite p) (Finite ph) (ds @ [d])
      = Finite (spec_phase_after c p ph (ds @ [d]))"
    by (rule double_phase_after_agrees [OF assms(2,3,1)])
  then have "signal_out (double_modulate_sample d
                   (double_phase_after (Finite c) (Finite p) (Finite ph) ds) (Finite c) (Finite p))
      = Finite (spec_phase_after c p ph (ds @ [d]))"
    by (simp only: double_phase_after_append)
  from double_modulate_finite [OF this] show ?thesis
    using scaled_sample_range [of "spec_phase_after c p ph (ds @ [d])"] by simp
qed

text \<open>
  C10, as the code has it, on the whole of \<^verbatim>\<open>double\<close>. Whenever the phase after the
  update is a number, the I and Q values returned lie between -32767 and 32767 and each
  is the truncated product itself: the conversion to \<^verbatim>\<open>int16_t\<close> is defined and does not
  wrap. The new phase is a number whenever the sum of phase and increment is one; with
  a phase and a scale of magnitude at most \<open>10 ^ 300\<close> and a sample period of at most 1
  it is, for every sample of every sequence, and the result is that of the computation
  on real numbers. That is so for the preloading program with any sample rate of at
  least 1, and for the streaming program with such a sample rate and a deviation of
  magnitude at most \<open>10 ^ 300\<close>. When the new phase is NaN, both conversions are applied
  to NaN and are undefined.
\<close>

theorem samples_fit_int16_unless_phase_is_nan:
  "(\<forall>x. signal_out (double_modulate_sample d s0 sc tp) = Finite x \<longrightarrow>
        i_out (double_modulate_sample d s0 sc tp) = Some (to_int16 (cos x * 32767))
        \<and> q_out (double_modulate_sample d s0 sc tp) = Some (to_int16 (sin x * 32767))
        \<and> sint (to_int16 (cos x * 32767)) = trunc_toward_zero (cos x * 32767)
        \<and> sint (to_int16 (sin x * 32767)) = trunc_toward_zero (sin x * 32767)
        \<and> - 32767 \<le> sint (to_int16 (cos x * 32767)) \<and> sint (to_int16 (cos x * 32767)) \<le> 32767
        \<and> - 32767 \<le> sint (to_int16 (sin x * 32767)) \<and> sint (to_int16 (sin x * 32767)) \<le> 32767)
   \<and> (signal_out (double_modulate_sample d s0 sc tp) = NaN \<longrightarrow>
        i_out (double_modulate_sample d s0 sc tp) = None
        \<and> q_out (double_modulate_sample d s0 sc tp) = None)
   \<and> (signal_out (double_modulate_sample d s0 sc tp) = NaN
      \<or> (\<exists>x. signal_out (double_modulate_sample d s0 sc tp) = Finite x))
   \<and> (\<forall>y. double_phase_sum d s0 sc tp = Finite y \<longrightarrow>
        signal_out (double_modulate_sample d s0 sc tp) = Finite (fmod y (2 * pi)))
   \<and> (\<bar>ph\<bar> \<le> 10 ^ 300 \<and> \<bar>c\<bar> \<le> 10 ^ 300 \<and> \<bar>p\<bar> \<le> 1 \<longrightarrow>
        double_modulate_sample d (Finite ph) (Finite c) (Finite p)
          = \<lparr>i_out = Some (i_sample (zed_modulate_sample d ph c p)),
             q_out = Some (q_sample (zed_modulate_sample d ph c p)),
             signal_out = Finite (signal (zed_modulate_sample d ph c p))\<rparr>
        \<and> (\<exists>i q. i_out (double_modulate_sample d
                     (double_phase_after (Finite c) (Finite p) (Finite ph) ds) (Finite c) (Finite p))
                   = Some i
               \<and> q_out (double_modulate_sample d
                     (double_phase_after (Finite c) (Finite p) (Finite ph) ds) (Finite c) (Finite p))
                   = Some q
               \<and> - 32767 \<le> sint i \<and> sint i \<le> 32767 \<and> - 32767 \<le> sint q \<and> sint q \<le> 32767))
   \<and> (\<bar>dh\<bar> \<le> 10 ^ 300 \<and> 1 \<le> sr \<longrightarrow>
        (\<exists>i q. i_out (double_modulate_sample d
                     (double_phase_after (zed_deviation_scale (Finite dh)) (sample_period sr)
                        (Finite 0) ds)
                     (zed_deviation_scale (Finite dh)) (sample_period sr))
                   = Some i
               \<and> q_out (double_modulate_sample d
                     (double_phase_after (zed_deviation_scale (Finite dh)) (sample_period sr)
                        (Finite 0) ds)
                     (zed_deviation_scale (Finite dh)) (sample_period sr))
                   = Some q
               \<and> - 32767 \<le> sint i \<and> sint i \<le> 32767 \<and> - 32767 \<le> sint q \<and> sint q \<le> 32767))
   \<and> (1 \<le> sr \<longrightarrow>
        (\<exists>i q. i_out (double_modulate_sample d
                     (double_phase_after preload_deviation_scale (sample_period sr) (Finite 0) ds)
                     preload_deviation_scale (sample_period sr))
                   = Some i
               \<and> q_out (double_modulate_sample d
                     (double_phase_after preload_deviation_scale (sample_period sr) (Finite 0) ds)
                     preload_deviation_scale (sample_period sr))
                   = Some q
               \<and> - 32767 \<le> sint i \<and> sint i \<le> 32767 \<and> - 32767 \<le> sint q \<and> sint q \<le> 32767))"
proof -
  have fin: "\<forall>x. signal_out (double_modulate_sample d s0 sc tp) = Finite x \<longrightarrow>
        i_out (double_modulate_sample d s0 sc tp) = Some (to_int16 (cos x * 32767))
        \<and> q_out (double_modulate_sample d s0 sc tp) = Some (to_int16 (sin x * 32767))
        \<and> sint (to_int16 (cos x * 32767)) = trunc_toward_zero (cos x * 32767)
        \<and> sint (to_int16 (sin x * 32767)) = trunc_toward_zero (sin x * 32767)
        \<and> - 32767 \<le> sint (to_int16 (cos x * 32767)) \<and> sint (to_int16 (cos x * 32767)) \<le> 32767
        \<and> - 32767 \<le> sint (to_int16 (sin x * 32767)) \<and> sint (to_int16 (sin x * 32767)) \<le> 32767"
    using double_modulate_finite [of d s0 sc tp] scaled_sample_range by blast
  have nan: "signal_out (double_modulate_sample d s0 sc tp) = NaN \<longrightarrow>
        i_out (double_modulate_sample d s0 sc tp) = None
        \<and> q_out (double_modulate_sample d s0 sc tp) = None"
    using double_modulate_nan by blast
  have alt: "signal_out (double_modulate_sample d s0 sc tp) = NaN
      \<or> (\<exists>x. signal_out (double_modulate_sample d s0 sc tp) = Finite x)"
    using double_modulate_phase_range [of d s0 sc tp] by blast
  have sum: "\<forall>y. double_phase_sum d s0 sc tp = Finite y \<longrightarrow>
        signal_out (double_modulate_sample d s0 sc tp) = Finite (fmod y (2 * pi))"
    by (simp add: double_modulate_phase_cases)
  have zed: "\<exists>i q. i_out (double_modulate_sample d
                     (double_phase_after (zed_deviation_scale (Finite dh)) (sample_period sr)
                        (Finite 0) ds)
                     (zed_deviation_scale (Finite dh)) (sample_period sr))
                   = Some i
               \<and> q_out (double_modulate_sample d
                     (double_phase_after (zed_deviation_scale (Finite dh)) (sample_period sr)
                        (Finite 0) ds)
                     (zed_deviation_scale (Finite dh)) (sample_period sr))
                   = Some q
               \<and> - 32767 \<le> sint i \<and> sint i \<le> 32767 \<and> - 32767 \<le> sint q \<and> sint q \<le> 32767"
    if "\<bar>dh\<bar> \<le> 10 ^ 300" "1 \<le> sr"
    unfolding zed_deviation_scale_finite(1) [OF that(1)] sample_period_finite(1) [OF that(2)]
    by (rule double_samples_in_range
        [OF _ zed_deviation_scale_finite(2) [OF that(1)] sample_period_finite(2) [OF that(2)]])
      simp
  have preload: "\<exists>i q. i_out (double_modulate_sample d
                     (double_phase_after preload_deviation_scale (sample_period sr) (Finite 0) ds)
                     preload_deviation_scale (sample_period sr))
                   = Some i
               \<and> q_out (double_modulate_sample d
                     (double_phase_after preload_deviation_scale (sample_period sr) (Finite 0) ds)
                     preload_deviation_scale (sample_period sr))
                   = Some q
               \<and> - 32767 \<le> sint i \<and> sint i \<le> 32767 \<and> - 32767 \<le> sint q \<and> sint q \<le> 32767"
    if "1 \<le> sr"
    unfolding preload_deviation_scale_finite sample_period_finite(1) [OF that]
    by (rule double_samples_in_range [OF _ _ sample_period_finite(2) [OF that]]) simp_all
  show ?thesis
    using fin nan alt sum double_modulate_agrees [of ph c p d]
      double_samples_in_range [of ph c p d ds] zed preload
    by blast
qed

text \<open>
  The sample 0 from phase 0 in the preloading program at 2304000 samples per second:
  the phase stays 0 and the samples are 32767 and 0.
\<close>

theorem samples_fit_int16_unless_phase_is_nan_witness:
  "i_out (double_modulate_sample 0 (Finite 0) preload_deviation_scale (sample_period 2304000))
     = Some 32767
   \<and> q_out (double_modulate_sample 0 (Finite 0) preload_deviation_scale (sample_period 2304000))
     = Some 0
   \<and> signal_out (double_modulate_sample 0 (Finite 0) preload_deviation_scale (sample_period 2304000))
     = Finite 0"
proof -
  have sp: "sample_period 2304000 = Finite (1 / 2304000)"
    using sample_period_finite(1) [of 2304000] by simp
  have b: "\<bar>0 :: real\<bar> \<le> 10 ^ 300 \<and> \<bar>7500 / 32767 :: real\<bar> \<le> 10 ^ 300
      \<and> \<bar>1 / 2304000 :: real\<bar> \<le> 1"
    by simp
  note t = samples_fit_int16_unless_phase_is_nan
    [where d = 0 and ?s0.0 = "Finite 0" and sc = "Finite (7500 / 32767)"
       and tp = "Finite (1 / 2304000)" and ds = "[]" and ph = 0 and c = "7500 / 32767"
       and p = "1 / 2304000" and dh = 10000 and sr = 2304000]
  from t b have "double_modulate_sample 0 (Finite 0) (Finite (7500 / 32767)) (Finite (1 / 2304000))
          = \<lparr>i_out = Some (i_sample (zed_modulate_sample 0 0 (7500 / 32767) (1 / 2304000))),
             q_out = Some (q_sample (zed_modulate_sample 0 0 (7500 / 32767) (1 / 2304000))),
             signal_out = Finite (signal (zed_modulate_sample 0 0 (7500 / 32767) (1 / 2304000)))\<rparr>"
    by blast
  then show ?thesis
    unfolding preload_deviation_scale_finite sp by (simp add: zed_modulate_zero)
qed

lemma overflowing_increment:
  "double_phase_sum 32767 (Finite 0) (zed_deviation_scale (Finite (10 ^ 308))) (sample_period 2000000)
     = Plus_infinity"
proof -
  have sc: "zed_deviation_scale (Finite (10 ^ 308)) = Finite (10 ^ 308 / 32767)"
  proof -
    have "\<bar>10 ^ 308 / 32767 :: real\<bar> \<le> \<bar>10 ^ 308\<bar>"
      by simp
    also have "\<bar>10 ^ 308 :: real\<bar> \<le> DBL_MAX"
      using DBL_MAX_above_1e308 by simp
    finally show ?thesis
      by (simp add: zed_deviation_scale_def MAX_SAMPLE_VALUE_def finite_result_in_range)
  qed
  have sp: "sample_period 2000000 = Finite (1 / 2000000)"
    using sample_period_finite(1) [of 2000000] by simp
  have fr: "finite_result (real_of_int (sint (32767 :: int16)) * (10 ^ 308 / 32767)) = Finite (10 ^ 308)"
    using finite_result_in_range [of "10 ^ 308"] DBL_MAX_above_1e308 by simp
  have "DBL_MAX < 4 * 10 ^ 308"
    by (rule DBL_MAX_small)
  also have "4 * 10 ^ 308 \<le> 2 * pi * 10 ^ 308"
    using pi_ge_two by simp
  finally have ov: "finite_result (2 * pi * 10 ^ 308) = Plus_infinity"
    by (simp add: finite_result_def)
  show ?thesis
    unfolding double_phase_sum_def sc sp two_pi_double double_mul.simps fr ov
    by (simp add: infinity_of_sign_def)
qed

text \<open>
  C10 as stated speaks of every state. The streaming program started with
  \<^verbatim>\<open>-s 2000000 -d 1e308\<close> computes the scale \<open>10 ^ 308 / 32767\<close>; at the sample 32767 the
  frequency is \<open>10 ^ 308\<close>, the product with \<open>2 * pi\<close> exceeds \<^verbatim>\<open>DBL_MAX\<close>, the increment
  and the sum are infinite, \<^verbatim>\<open>fmod\<close> returns NaN, and both casts are applied to NaN: no
  value of \<^verbatim>\<open>int16_t\<close> is defined for either sample.
\<close>

theorem overflowing_deviation_counterexample:
  "i_out (double_modulate_sample 32767 (Finite 0) (zed_deviation_scale (Finite (10 ^ 308)))
      (sample_period 2000000)) = None
   \<and> q_out (double_modulate_sample 32767 (Finite 0) (zed_deviation_scale (Finite (10 ^ 308)))
      (sample_period 2000000)) = None
   \<and> signal_out (double_modulate_sample 32767 (Finite 0) (zed_deviation_scale (Finite (10 ^ 308)))
      (sample_period 2000000)) = NaN"
proof -
  have "signal_out (double_modulate_sample 32767 (Finite 0) (zed_deviation_scale (Finite (10 ^ 308)))
      (sample_period 2000000)) = NaN"
    unfolding double_modulate_phase_cases overflowing_increment by simp
  then show ?thesis
    unfolding double_modulate_outputs by simp
qed


section \<open>The passes of the looping source\<close>




section \<open>Buffers that cover a sequence\<close>

lemma delivered_samples:
  "n \<le> length xs \<Longrightarrow> delivered (map Some xs @ rest) n = take n xs"
proof (induction xs arbitrary: n)
  case Nil
  then show ?case by simp
next
  case (Cons x xs)
  then show ?case by (cases n) simp_all
qed

lemma not_exhausted_within_samples:
  "n \<le> length xs \<Longrightarrow> \<not> exhausted_within (map Some xs @ rest) n"
proof (induction xs arbitrary: n)
  case Nil
  then show ?case by simp
next
  case (Cons x xs)
  then show ?case by (cases n) simp_all
qed

lemma delivered_beyond_samples:
  assumes "length xs \<le> r"
  shows "delivered (map Some xs @ rest) r = xs @ delivered rest (r - length xs)"
proof -
  have "delivered (map Some xs @ rest) (length xs + (r - length xs))
      = delivered (map Some xs @ rest) (length xs)
          @ delivered (drop (length xs) (map Some xs @ rest)) (r - length xs)"
    by (rule delivered_add)
  with assms show ?thesis
    by (simp add: delivered_samples)
qed

lemma not_exhausted_within_less:
  assumes "\<not> exhausted_within input c" "b \<le> c"
  shows "\<not> exhausted_within input b" "\<not> exhausted_within (drop b input) (c - b)"
  using assms exhausted_within_add [of input b "c - b"] by simp_all

lemma zed_loop_step:
  assumes "\<not> stop s" "\<not> sigint e (stop_reads s)" "0 \<le> push_result e (pushes s)"
  shows "zed_loop (Suc m) e s
     = zed_loop m e
         ((emit Buffer_push (zed_fill 0 (buffer_slots e (pushes s)) (deliver e signal_handler s)))
            \<lparr>pushes := pushes s + 1\<rparr>)"
  using assms by (simp add: Let_def deliver_fields zed_fill_fields)

lemma zed_buffer_advanced:
  "zed_advanced s
     ((emit Buffer_push (zed_fill 0 b (deliver e signal_handler s)))\<lparr>pushes := p\<rparr>) b"
proof -
  have "zed_advanced (zed_fill 0 b (deliver e signal_handler s))
      ((emit Buffer_push (zed_fill 0 b (deliver e signal_handler s)))\<lparr>pushes := p\<rparr>) 0"
    by (simp add: zed_advanced_def emit_def trace_append)
  from zed_advanced_trans [OF zed_advanced_trans [OF zed_advanced_deliver zed_advanced_fill] this]
  show ?thesis by simp
qed

lemma zed_buffer_fields:
  "pushes ((emit Buffer_push (zed_fill 0 b (deliver e signal_handler s)))\<lparr>pushes := p\<rparr>) = p"
  "stop ((emit Buffer_push (zed_fill 0 b (deliver e signal_handler s)))\<lparr>pushes := p\<rparr>)
     = (stop s \<or> sigint e (stop_reads s) \<or> exhausted_within (stdin_rest s) b)"
  "stdin_rest ((emit Buffer_push (zed_fill 0 b (deliver e signal_handler s)))\<lparr>pushes := p\<rparr>)
     = drop b (stdin_rest s)"
  by (simp_all add: emit_def zed_fill_stop zed_fill_fields deliver_fields zed_deliver_fields)

lemma zed_loop_consumes:
  assumes "\<forall>k. \<not> sigint e k" "\<forall>k. 0 \<le> push_result e k"
    and "\<not> stop s" "\<not> exhausted_within (stdin_rest s) (slots_over e (pushes s) m)"
  shows "zed_loop m e s = Inside (state_of (zed_loop m e s))
     \<and> zed_advanced s (state_of (zed_loop m e s)) (slots_over e (pushes s) m)
     \<and> \<not> stop (state_of (zed_loop m e s))"
  using assms(3,4)
proof (induction m arbitrary: s)
  case 0
  then show ?case by (simp add: zed_advanced_refl)
next
  case (Suc m)
  define b where "b = buffer_slots e (pushes s)"
  define s3 where "s3 = (emit Buffer_push (zed_fill 0 b (deliver e signal_handler s)))
            \<lparr>pushes := pushes s + 1\<rparr>"
  have step: "zed_loop (Suc m) e s = zed_loop m e s3"
    unfolding s3_def b_def using Suc.prems(1) assms(1,2) by (intro zed_loop_step) simp_all
  from Suc.prems(2) have c: "\<not> exhausted_within (stdin_rest s) (b + slots_over e (Suc (pushes s)) m)"
    by (simp add: b_def)
  have ne: "\<not> exhausted_within (stdin_rest s) b"
    "\<not> exhausted_within (drop b (stdin_rest s)) (slots_over e (Suc (pushes s)) m)"
    using not_exhausted_within_less [OF c, of b] by simp_all
  have f: "pushes s3 = Suc (pushes s)" "\<not> stop s3" "stdin_rest s3 = drop b (stdin_rest s)"
    using Suc.prems(1) assms(1) ne(1) by (simp_all add: s3_def zed_buffer_fields)
  have a: "zed_advanced s s3 b"
    unfolding s3_def by (rule zed_buffer_advanced)
  have ih: "zed_loop m e s3 = Inside (state_of (zed_loop m e s3))
     \<and> zed_advanced s3 (state_of (zed_loop m e s3)) (slots_over e (Suc (pushes s)) m)
     \<and> \<not> stop (state_of (zed_loop m e s3))"
    using Suc.IH [of s3] f ne(2) by simp
  show ?case
    unfolding step using ih zed_advanced_trans [OF a, of "state_of (zed_loop m e s3)"]
    by (simp add: b_def)
qed

lemma zed_loop_covers:
  assumes "\<forall>k. \<not> sigint e k" "\<forall>k. 0 \<le> push_result e k"
    and "\<not> stop s" "\<not> exhausted_within (stdin_rest s) c" "c \<le> slots_over e (pushes s) m"
  shows "\<exists>r. c \<le> r \<and> zed_advanced s (state_of (zed_loop m e s)) r"
  using assms(3,4,5)
proof (induction m arbitrary: s c)
  case 0
  then show ?case using zed_advanced_refl by auto
next
  case (Suc m)
  define b where "b = buffer_slots e (pushes s)"
  define s3 where "s3 = (emit Buffer_push (zed_fill 0 b (deliver e signal_handler s)))
            \<lparr>pushes := pushes s + 1\<rparr>"
  have step: "zed_loop (Suc m) e s = zed_loop m e s3"
    unfolding s3_def b_def using Suc.prems(1) assms(1,2) by (intro zed_loop_step) simp_all
  have a: "zed_advanced s s3 b"
    unfolding s3_def by (rule zed_buffer_advanced)
  show ?case
  proof (cases "c \<le> b")
    case True
    obtain r where "zed_advanced s3 (state_of (zed_loop m e s3)) r"
      using zed_loop_advanced by blast
    from zed_advanced_trans [OF a this] True show ?thesis
      unfolding step by (intro exI [of _ "b + r"]) simp
  next
    case False
    then have bc: "b \<le> c" by simp
    have ne: "\<not> exhausted_within (stdin_rest s) b"
      "\<not> exhausted_within (drop b (stdin_rest s)) (c - b)"
      using not_exhausted_within_less [OF Suc.prems(2) bc] by simp_all
    have f: "pushes s3 = Suc (pushes s)" "\<not> stop s3" "stdin_rest s3 = drop b (stdin_rest s)"
      using Suc.prems(1) assms(1) ne(1) by (simp_all add: s3_def zed_buffer_fields)
    have "c - b \<le> slots_over e (pushes s3) m"
      using Suc.prems(3) by (simp add: f b_def)
    with Suc.IH [of s3 "c - b"] f ne(2)
    obtain r where r: "c - b \<le> r" "zed_advanced s3 (state_of (zed_loop m e s3)) r"
      by auto
    from zed_advanced_trans [OF a r(2)] r(1) show ?thesis
      unfolding step by (intro exI [of _ "b + r"]) simp
  qed
qed

lemma preload_buffer_fields:
  "stop (wait_until ts (((emit Buffer_push (preload_fill 0 b (deliver e handle_sig s)))
      \<lparr>pushes := p\<rparr>)\<lparr>t := ts\<rparr>)) = (stop s \<or> sigint e (stop_reads s))"
  "pushes (wait_until ts (((emit Buffer_push (preload_fill 0 b (deliver e handle_sig s)))
      \<lparr>pushes := p\<rparr>)\<lparr>t := ts\<rparr>)) = p"
  "index (wait_until ts (((emit Buffer_push (preload_fill 0 b (deliver e handle_sig s)))
      \<lparr>pushes := p\<rparr>)\<lparr>t := ts\<rparr>)) = min (index s + b) (max (index s) (total_samples s))"
  "total_samples (wait_until ts (((emit Buffer_push (preload_fill 0 b (deliver e handle_sig s)))
      \<lparr>pushes := p\<rparr>)\<lparr>t := ts\<rparr>)) = total_samples s"
proof -
  have "preload_advanced s (preload_fill 0 b (deliver e handle_sig s))"
    by (rule preload_advanced_trans [OF preload_advanced_deliver preload_advanced_fill])
  then have "total_samples (preload_fill 0 b (deliver e handle_sig s)) = total_samples s"
    by (simp add: preload_advanced_def)
  then show "total_samples (wait_until ts (((emit Buffer_push (preload_fill 0 b (deliver e handle_sig s)))
      \<lparr>pushes := p\<rparr>)\<lparr>t := ts\<rparr>)) = total_samples s"
    by (simp add: wait_until_def emit_def)
qed (simp_all add: wait_until_def emit_def preload_fill_fields deliver_fields preload_deliver_fields)

lemma preload_pass_completes:
  assumes "\<forall>k. \<not> sigint e k"
    and "\<not> stop s" "index s \<le> total_samples s"
      "total_samples s - index s \<le> slots_over e (pushes s) m" "m \<le> n"
  shows "index (state_of (preload_pass n e s)) = total_samples s
     \<and> \<not> stop (state_of (preload_pass n e s))
     \<and> (m < n \<longrightarrow> preload_pass n e s = Left (state_of (preload_pass n e s)))"
  using assms(2-)
proof (induction m arbitrary: s n)
  case 0
  then have i: "index s = total_samples s" by simp
  show ?case
  proof (cases n)
    case 0
    with i "0.prems"(1) show ?thesis by simp
  next
    case (Suc n')
    with i "0.prems"(1) assms(1) show ?thesis
      unfolding Suc preload_pass_Suc
      by (simp add: deliver_fields preload_deliver_fields)
  qed
next
  case (Suc m)
  from Suc.prems(4) obtain n' where n: "n = Suc n'" "m \<le> n'"
    by (cases n) simp_all
  define s5 where "s5 = wait_until (next_deadline (t s))
           (((emit Buffer_push (preload_fill 0 (buffer_slots e (pushes s)) (deliver e handle_sig s)))
               \<lparr>pushes := pushes s + 1\<rparr>)
               \<lparr>t := next_deadline (t s)\<rparr>)"
  have d: "\<not> stop (deliver e handle_sig s)" "index (deliver e handle_sig s) = index s"
    "total_samples (deliver e handle_sig s) = total_samples s"
    using Suc.prems(1) assms(1) by (simp_all add: deliver_fields preload_deliver_fields)
  show ?case
  proof (cases "index s < total_samples s")
    case True
    have f: "\<not> stop s5" "pushes s5 = Suc (pushes s)" "total_samples s5 = total_samples s"
      "index s5 = min (index s + buffer_slots e (pushes s)) (total_samples s)"
      using Suc.prems(1,2) assms(1) by (simp_all add: s5_def preload_buffer_fields max_def)
    have "index s5 \<le> total_samples s5" "total_samples s5 - index s5 \<le> slots_over e (pushes s5) m"
      using Suc.prems(3) by (simp_all add: f)
    from Suc.IH [OF f(1) this n(2)] have
      "index (state_of (preload_pass n' e s5)) = total_samples s
       \<and> \<not> stop (state_of (preload_pass n' e s5))
       \<and> (m < n' \<longrightarrow> preload_pass n' e s5 = Left (state_of (preload_pass n' e s5)))"
      by (simp add: f)
    with True d show ?thesis
      unfolding n preload_pass_Suc s5_def [symmetric] by (simp del: preload_pass.simps)
  next
    case False
    with Suc.prems(2) d show ?thesis
      unfolding n preload_pass_Suc by (simp del: preload_pass.simps)
  qed
qed

section \<open>Buffers of any sizes\<close>

lemma samples_between_all: "samples_between s 0 (length (samples s)) = samples s"
  by (simp add: samples_between_def map_nth)

text \<open>
  C2. A deviation sequence \<open>xs\<close> is chunked by the buffers the library hands out:
  \<open>buffer_slots e\<close> is an arbitrary function of the refill count, and \<open>m\<close> buffers take
  \<open>slots_over e (pushes s) m\<close> samples. As long as no SIGINT arrives and no push fails:
  \<^item> when the sizes of \<open>m\<close> buffers add up to the length of \<open>xs\<close>, the streaming program
    with \<open>xs\<close> next on its input is still in its loop after \<open>m\<close> iterations, has consumed
    exactly \<open>xs\<close> and has stored exactly the one-pass modulation of \<open>xs\<close> from the phase
    it started with;
  \<^item> when they add up to more, what it has stored begins with the one-pass modulation of
    \<open>xs\<close>, also when the input ends after \<open>xs\<close> and the last buffer is padded;
  \<^item> when the sizes of \<open>m\<close> buffers reach the number of samples left in the pass, the
    preloading program has after \<open>m\<close> or more iterations consumed every sample of the
    pass and stored exactly their one-pass modulation, and with one iteration more it
    has left the pass; at the start of a pass over a whole file these are the samples
    of the file.
  The right-hand sides mention neither the sizes nor the number of the buffers, so two
  chunkings of the same sequence give the same pairs. The last four conjuncts hold of
  every run, interrupted or not: what has been stored is the one-pass modulation of
  what has been consumed so far.
\<close>

theorem chunking_does_not_change_the_output:
  "(\<not> stop s \<and> (\<forall>k. \<not> sigint e k) \<and> (\<forall>k. 0 \<le> push_result e k)
      \<and> stdin_rest s = map Some xs @ rest \<and> slots_over e (pushes s) m = length xs
     \<longrightarrow> zed_loop m e s = Inside (state_of (zed_loop m e s))
         \<and> slot_writes (trace (state_of (zed_loop m e s)))
           = slot_writes (trace s)
               @ spec_one_pass (deviation_scale s) (time_per_sample s) (signal_phase s) xs
         \<and> stdin_rest (state_of (zed_loop m e s)) = rest
         \<and> \<not> stop (state_of (zed_loop m e s)))
   \<and> (\<not> stop s \<and> (\<forall>k. \<not> sigint e k) \<and> (\<forall>k. 0 \<le> push_result e k)
      \<and> stdin_rest s = map Some xs @ rest \<and> length xs \<le> slots_over e (pushes s) m
     \<longrightarrow> (\<exists>more. slot_writes (trace (state_of (zed_loop m e s)))
           = slot_writes (trace s)
               @ spec_one_pass (deviation_scale s) (time_per_sample s) (signal_phase s) xs
               @ more))
   \<and> (\<not> stop p \<and> (\<forall>k. \<not> sigint e k) \<and> index p \<le> total_samples p
      \<and> total_samples p - index p \<le> slots_over e (pushes p) m \<and> m \<le> n
     \<longrightarrow> slot_writes (trace (state_of (preload_pass n e p)))
           = slot_writes (trace p)
               @ spec_one_pass (deviation_scale p) (time_per_sample p) (phase_accum p)
                   (samples_between p (index p) (total_samples p))
         \<and> index (state_of (preload_pass n e p)) = total_samples p
         \<and> \<not> stop (state_of (preload_pass n e p))
         \<and> (m < n \<longrightarrow> preload_pass n e p = Left (state_of (preload_pass n e p))))
   \<and> samples_between p 0 (length (samples p)) = samples p
   \<and> slot_writes (trace (state_of (zed_loop n e s)))
     = slot_writes (trace s)
         @ spec_one_pass (deviation_scale s) (time_per_sample s) (signal_phase s)
             (delivered (stdin_rest s)
                (source_reads (trace (state_of (zed_loop n e s))) - source_reads (trace s)))
   \<and> slot_writes (trace (state_of (preload_pass n e p)))
     = slot_writes (trace p)
         @ spec_one_pass (deviation_scale p) (time_per_sample p) (phase_accum p)
             (samples_between p (index p) (index (state_of (preload_pass n e p))))
   \<and> index (state_of (preload_pass n e p)) \<le> max (index p) (total_samples p)
   \<and> (case preload_pass n e p of
         Left p' \<Rightarrow> stop p' \<or> total_samples p \<le> index p'
       | Inside p' \<Rightarrow> True)"
proof -
  have exact: "zed_loop m e s = Inside (state_of (zed_loop m e s))
         \<and> slot_writes (trace (state_of (zed_loop m e s)))
           = slot_writes (trace s)
               @ spec_one_pass (deviation_scale s) (time_per_sample s) (signal_phase s) xs
         \<and> stdin_rest (state_of (zed_loop m e s)) = rest
         \<and> \<not> stop (state_of (zed_loop m e s))"
    if h: "\<not> stop s" "\<forall>k. \<not> sigint e k" "\<forall>k. 0 \<le> push_result e k"
      "stdin_rest s = map Some xs @ rest" "slots_over e (pushes s) m = length xs"
  proof -
    have "\<not> exhausted_within (stdin_rest s) (slots_over e (pushes s) m)"
      unfolding h(4,5) by (rule not_exhausted_within_samples) simp
    from zed_loop_consumes [OF h(2,3,1) this] show ?thesis
      unfolding h(5) by (simp add: zed_advanced_def h(4) delivered_samples)
  qed
  have cover: "\<exists>more. slot_writes (trace (state_of (zed_loop m e s)))
           = slot_writes (trace s)
               @ spec_one_pass (deviation_scale s) (time_per_sample s) (signal_phase s) xs
               @ more"
    if h: "\<not> stop s" "\<forall>k. \<not> sigint e k" "\<forall>k. 0 \<le> push_result e k"
      "stdin_rest s = map Some xs @ rest" "length xs \<le> slots_over e (pushes s) m"
  proof -
    have "\<not> exhausted_within (stdin_rest s) (length xs)"
      unfolding h(4) by (rule not_exhausted_within_samples) simp
    from zed_loop_covers [OF h(2,3,1) this h(5)]
    obtain r where r: "length xs \<le> r" "zed_advanced s (state_of (zed_loop m e s)) r"
      by blast
    from r(2) show ?thesis
      by (simp add: zed_advanced_def h(4) delivered_beyond_samples [OF r(1)] spec_one_pass_append)
  qed
  have adv: "preload_advanced p (state_of (preload_pass n e p))"
    by (rule preload_pass_advanced)
  have whole: "slot_writes (trace (state_of (preload_pass n e p)))
           = slot_writes (trace p)
               @ spec_one_pass (deviation_scale p) (time_per_sample p) (phase_accum p)
                   (samples_between p (index p) (total_samples p))
         \<and> index (state_of (preload_pass n e p)) = total_samples p
         \<and> \<not> stop (state_of (preload_pass n e p))
         \<and> (m < n \<longrightarrow> preload_pass n e p = Left (state_of (preload_pass n e p)))"
    if h: "\<not> stop p" "\<forall>k. \<not> sigint e k" "index p \<le> total_samples p"
      "total_samples p - index p \<le> slots_over e (pushes p) m" "m \<le> n"
  proof -
    note c = preload_pass_completes [OF h(2,1,3,4,5)]
    from c have i: "index (state_of (preload_pass n e p)) = total_samples p"
      by simp
    from adv have "slot_writes (trace (state_of (preload_pass n e p)))
           = slot_writes (trace p)
               @ spec_one_pass (deviation_scale p) (time_per_sample p) (phase_accum p)
                   (samples_between p (index p) (total_samples p))"
      unfolding preload_advanced_def i by simp
    with c show ?thesis by simp
  qed
  obtain r where r: "zed_advanced s (state_of (zed_loop n e s)) r"
    using zed_loop_advanced by blast
  then have "source_reads (trace (state_of (zed_loop n e s))) - source_reads (trace s) = r"
    by (simp add: zed_advanced_def)
  with r have z: "slot_writes (trace (state_of (zed_loop n e s)))
     = slot_writes (trace s)
         @ spec_one_pass (deviation_scale s) (time_per_sample s) (signal_phase s)
             (delivered (stdin_rest s)
                (source_reads (trace (state_of (zed_loop n e s))) - source_reads (trace s)))"
    by (simp add: zed_advanced_def)
  have l: "(case preload_pass n e p of
         Left p' \<Rightarrow> stop p' \<or> total_samples p \<le> index p'
       | Inside p' \<Rightarrow> True)"
  proof (cases "preload_pass n e p")
    case (Left p')
    with adv have "total_samples p' = total_samples p"
      by (simp add: preload_advanced_def)
    with preload_pass_left [OF Left] Left show ?thesis by simp
  next
    case (Inside p')
    then show ?thesis by simp
  qed
  have any: "slot_writes (trace (state_of (preload_pass n e p)))
     = slot_writes (trace p)
         @ spec_one_pass (deviation_scale p) (time_per_sample p) (phase_accum p)
             (samples_between p (index p) (index (state_of (preload_pass n e p))))"
    "index (state_of (preload_pass n e p)) \<le> max (index p) (total_samples p)"
    using adv by (simp_all add: preload_advanced_def)
  show ?thesis
    using exact cover whole samples_between_all [of p] z any l by blast
qed

lemma slots_over_examples:
  "slots_over quiet_env 0 3 = 3" "slots_over wide_env 0 1 = 3"
  by (simp_all add: numeral_3_eq_3 quiet_env_def wide_env_def)

text \<open>
  The samples 100, -200, 300 in three buffers of one slot and in one buffer of three
  slots, for both programs.
\<close>

theorem chunking_does_not_change_the_output_witness:
  "slot_writes (trace (state_of (zed_loop 3 quiet_env stream_start)))
     = spec_one_pass (10000 / 32767) (1 / 2000000) 0 [100, - 200, 300]
   \<and> slot_writes (trace (state_of (zed_loop 1 wide_env stream_start)))
     = spec_one_pass (10000 / 32767) (1 / 2000000) 0 [100, - 200, 300]
   \<and> slot_writes (trace (state_of (preload_pass 3 quiet_env file_start)))
     = spec_one_pass (7500 / 32767) (1 / 2304000) 0 [100, - 200, 300]
   \<and> slot_writes (trace (state_of (preload_pass 1 wide_env file_start)))
     = spec_one_pass (7500 / 32767) (1 / 2304000) 0 [100, - 200, 300]"
proof -
  have s: "\<not> stop stream_start" "stdin_rest stream_start = map Some [100, - 200, 300] @ []"
    "pushes stream_start = 0" "slot_writes (trace stream_start) = []"
    "deviation_scale stream_start = 10000 / 32767" "time_per_sample stream_start = 1 / 2000000"
    "signal_phase stream_start = 0"
    by (simp_all add: stream_start_def)
  have p: "\<not> stop file_start" "index file_start = 0" "total_samples file_start = 3"
    "pushes file_start = 0" "slot_writes (trace file_start) = []"
    "deviation_scale file_start = 7500 / 32767" "time_per_sample file_start = 1 / 2304000"
    "phase_accum file_start = 0"
    "samples_between file_start 0 3 = [100, - 200, 300]"
    by (simp_all add: file_start_def pass_start_def samples_between_def upt_rec)
  have e: "\<forall>k. \<not> sigint quiet_env k" "\<forall>k. 0 \<le> push_result quiet_env k"
    "\<forall>k. \<not> sigint wide_env k" "\<forall>k. 0 \<le> push_result wide_env k"
    by (simp_all add: quiet_env_def wide_env_def)
  have l: "length [100 :: int16, - 200, 300] = 3"
    by simp
  note narrow = chunking_does_not_change_the_output
    [where s = stream_start and e = quiet_env and m = 3 and xs = "[100, - 200, 300]"
       and rest = "[]" and p = file_start and n = 3]
  note wide = chunking_does_not_change_the_output
    [where s = stream_start and e = wide_env and m = 1 and xs = "[100, - 200, 300]"
       and rest = "[]" and p = file_start and n = 1]
  from narrow s p e l slots_over_examples
  have a: "slot_writes (trace (state_of (zed_loop 3 quiet_env stream_start)))
     = spec_one_pass (10000 / 32767) (1 / 2000000) 0 [100, - 200, 300]"
    and c: "slot_writes (trace (state_of (preload_pass 3 quiet_env file_start)))
     = spec_one_pass (7500 / 32767) (1 / 2304000) 0 [100, - 200, 300]"
    by simp_all
  from wide s p e l slots_over_examples
  have b: "slot_writes (trace (state_of (zed_loop 1 wide_env stream_start)))
     = spec_one_pass (10000 / 32767) (1 / 2000000) 0 [100, - 200, 300]"
    and d: "slot_writes (trace (state_of (preload_pass 1 wide_env file_start)))
     = spec_one_pass (7500 / 32767) (1 / 2304000) 0 [100, - 200, 300]"
    by simp_all
  show ?thesis
    using a b c d by simp
qed


section \<open>The flag\<close>

lemma rises_all_true: "rises (True # replicate m True) = 0"
  by (induction m) simp_all

lemma falls_all_true: "falls (True # replicate m True) = 0"
  by (induction m) simp_all

lemma rises_raised_once: "rises (False # replicate m True) \<le> 1"
  by (cases m) (simp_all add: rises_all_true)

lemma falls_raised_once: "falls (False # replicate m True) = 0"
  by (cases m) (simp_all add: falls_all_true)

lemma flag_only_raised_refl: "flag_only_raised s s"
  unfolding flag_only_raised_def by (rule exI [of _ 0]) simp

lemma flag_only_raised_trans:
  assumes "flag_only_raised s s1" "flag_only_raised s1 s2"
  shows "flag_only_raised s s2"
proof -
  from assms obtain a b where
    a: "stop_writes (trace s1) = stop_writes (trace s) @ replicate a True" "stop s1 = (stop s \<or> 0 < a)"
    and b: "stop_writes (trace s2) = stop_writes (trace s1) @ replicate b True" "stop s2 = (stop s1 \<or> 0 < b)"
    unfolding flag_only_raised_def by blast
  have "stop_writes (trace s2) = stop_writes (trace s) @ replicate (a + b) True"
    by (simp add: a b replicate_add)
  moreover have "stop s2 = (stop s \<or> 0 < a + b)"
    using a b by auto
  ultimately show ?thesis
    unfolding flag_only_raised_def by blast
qed

lemma flag_only_raised_same:
  assumes "stop_writes (trace s') = stop_writes (trace s)" "stop s' = stop s"
  shows "flag_only_raised s s'"
  unfolding flag_only_raised_def using assms by (intro exI [of _ 0]) simp

lemma flag_only_raised_assign:
  assumes "stop_writes (trace s') = stop_writes (trace s) @ [True]" "stop s'"
  shows "flag_only_raised s s'"
  unfolding flag_only_raised_def using assms by (intro exI [of _ 1]) simp

lemma flag_only_raised_deliver:
  "flag_only_raised s (deliver e signal_handler s)"
  "flag_only_raised s (deliver e handle_sig s)"
  by (cases "sigint e (stop_reads s)";
      simp add: flag_only_raised_same flag_only_raised_assign deliver_fields trace_append)+

lemma flag_only_raised_last:
  assumes "flag_only_raised s s'"
  shows "stop s' = last (stop s # drop (length (stop_writes (trace s))) (stop_writes (trace s')))"
proof -
  from assms obtain m where
    m: "stop_writes (trace s') = stop_writes (trace s) @ replicate m True" "stop s' = (stop s \<or> 0 < m)"
    unfolding flag_only_raised_def by blast
  show ?thesis
    unfolding m by (cases m) simp_all
qed

lemma zed_fill_flag: "flag_only_raised s (zed_fill k n s)"
proof (induction n arbitrary: k s)
  case 0
  show ?case by (simp add: flag_only_raised_refl)
next
  case (Suc n)
  have "flag_only_raised s
       (emit (Slot_write k
                (i_sample (zed_modulate_sample (hd (delivered (stdin_rest s) 1)) (signal_phase s)
                   (deviation_scale s) (time_per_sample s)))
                (q_sample (zed_modulate_sample (hd (delivered (stdin_rest s) 1)) (signal_phase s)
                   (deviation_scale s) (time_per_sample s))))
          ((snd (get_next_sample s))
             \<lparr>signal_phase :=
                signal (zed_modulate_sample (hd (delivered (stdin_rest s) 1)) (signal_phase s)
                   (deviation_scale s) (time_per_sample s))\<rparr>))"
    by (cases "exhausted_within (stdin_rest s) 1";
        simp add: flag_only_raised_same flag_only_raised_assign emit_def get_next_sample_fields
          trace_append)
  then show ?case
    unfolding zed_fill_Suc by (rule flag_only_raised_trans [OF _ Suc.IH])
qed

lemma zed_loop_flag: "flag_only_raised s (state_of (zed_loop n e s))"
proof (induction n arbitrary: s)
  case 0
  show ?case by (simp add: flag_only_raised_refl)
next
  case (Suc n)
  define s1 where "s1 = deliver e signal_handler s"
  define s2 where "s2 = zed_fill 0 (buffer_slots e (pushes s1)) s1"
  define s3 where "s3 = (emit Buffer_push s2)\<lparr>pushes := pushes s2 + 1\<rparr>"
  have a1: "flag_only_raised s s1"
    unfolding s1_def by (rule flag_only_raised_deliver)
  have a2: "flag_only_raised s1 s2"
    unfolding s2_def by (rule zed_fill_flag)
  have a3: "flag_only_raised s2 s3"
    unfolding s3_def by (rule flag_only_raised_same) (simp_all add: emit_def trace_append)
  have a4: "flag_only_raised s3 (emit (Stderr ''Error pushing buffer'') s3)"
    by (rule flag_only_raised_same) (simp_all add: emit_def trace_append)
  note a13 = flag_only_raised_trans [OF flag_only_raised_trans [OF a1 a2] a3]
  have "state_of (zed_loop (Suc n) e s) =
      (if stop s1 then s1
       else if push_result e (pushes s2) < 0 then emit (Stderr ''Error pushing buffer'') s3
       else state_of (zed_loop n e s3))"
    by (simp add: s1_def s2_def s3_def Let_def)
  then show ?case
    using a1 flag_only_raised_trans [OF a13 a4] flag_only_raised_trans [OF a13 Suc.IH [of s3]]
    by simp
qed

lemma preload_pass_flag: "flag_only_raised s (state_of (preload_pass n e s))"
proof (induction n arbitrary: s)
  case 0
  show ?case by (simp add: flag_only_raised_refl)
next
  case (Suc n)
  define s5 where "s5 = wait_until (next_deadline (t s))
           (((emit Buffer_push (preload_fill 0 (buffer_slots e (pushes s)) (deliver e handle_sig s)))
               \<lparr>pushes := pushes s + 1\<rparr>)
               \<lparr>t := next_deadline (t s)\<rparr>)"
  have "flag_only_raised (deliver e handle_sig s) s5"
    by (rule flag_only_raised_same)
      (simp_all add: s5_def wait_until_def emit_def trace_append preload_fill_fields)
  then have "flag_only_raised s s5"
    by (rule flag_only_raised_trans [OF flag_only_raised_deliver(2)])
  then show ?case
    unfolding preload_pass_Suc s5_def [symmetric]
    using flag_only_raised_trans [OF _ Suc.IH [of s5]] flag_only_raised_deliver(2) [of s e]
    by (simp del: preload_pass.simps)
qed

lemma preload_loop_flag: "flag_only_raised s (state_of (preload_loop n e s))"
proof (induction n arbitrary: s)
  case 0
  show ?case by (simp add: flag_only_raised_refl)
next
  case (Suc n)
  define s2 where "s2 = (deliver e handle_sig s)
                   \<lparr>phase_accum := 0, index := 0,
                    t := clock e (clock_reads s), clock_reads := clock_reads s + 1\<rparr>"
  have "flag_only_raised (deliver e handle_sig s) s2"
    by (rule flag_only_raised_same) (simp_all add: s2_def)
  then have a2: "flag_only_raised s s2"
    by (rule flag_only_raised_trans [OF flag_only_raised_deliver(2)])
  have a3: "flag_only_raised s (state_of (preload_pass n e s2))"
    by (rule flag_only_raised_trans [OF a2 preload_pass_flag])
  show ?case
  proof (cases "preload_pass n e s2")
    case (Left s3)
    then have "flag_only_raised s s3" using a3 by simp
    then have "flag_only_raised s (state_of (preload_loop n e s3))"
      by (rule flag_only_raised_trans [OF _ Suc.IH])
    then show ?thesis
      unfolding preload_loop_Suc s2_def [symmetric] using Left flag_only_raised_deliver(2) [of s e]
      by simp
  next
    case (Inside s3)
    then have "flag_only_raised s s3" using a3 by simp
    then show ?thesis
      unfolding preload_loop_Suc s2_def [symmetric] using Inside flag_only_raised_deliver(2) [of s e]
      by simp
  qed
qed

lemma stop_writes_fixed [simp]:
  "stop_writes (zed_configure cf sr) = []"
  "stop_writes zed_shutdown = []"
  "stop_writes (preload_configure cf sr) = []"
  "stop_writes preload_shutdown = []"
  by (simp_all add: zed_configure_def zed_shutdown_def preload_configure_def preload_shutdown_def)

lemma zed_main_shape:
  "(\<exists>msg. zed_main n e = (Exit 1, [Stderr msg]))
   \<or> (\<exists>cf sr. zed_main n e
          = (Exit 1, zed_configure cf sr @ [Stderr ''Could not create TX buffer'']))
   \<or> (\<exists>cf sr dv s. zed_loop n e (zed_start cf sr dv e) = Inside s
          \<and> zed_main n e = (Transmitting, trace s))
   \<or> (\<exists>cf sr dv s. zed_loop n e (zed_start cf sr dv e) = Left s
          \<and> zed_main n e = (Exit 0, trace s @ zed_shutdown))"
proof (cases "zed_getopt (opts e) (- 1, - 1, 10000)")
  case None
  then show ?thesis by (simp add: zed_main_def)
next
  case (Some v)
  obtain cf sr dv where v: "v = (cf, sr, dv)"
    by (cases v) auto
  show ?thesis
  proof (cases "zed_loop n e (zed_start cf sr dv e)")
    case (Left s)
    then show ?thesis
      unfolding zed_main_def Some v by (simp; blast)
  next
    case (Inside s)
    then show ?thesis
      unfolding zed_main_def Some v by (simp; blast)
  qed
qed

lemma zed_main_cases:
  obtains (error) msg where "zed_main n e = (Exit 1, [Stderr msg])"
  | (no_buffer) cf sr where
      "zed_main n e = (Exit 1, zed_configure cf sr @ [Stderr ''Could not create TX buffer''])"
  | (inside) cf sr dv s where
      "zed_loop n e (zed_start cf sr dv e) = Inside s" "zed_main n e = (Transmitting, trace s)"
  | (left) cf sr dv s where
      "zed_loop n e (zed_start cf sr dv e) = Left s" "zed_main n e = (Exit 0, trace s @ zed_shutdown)"
  using zed_main_shape [of n e] by blast

lemma preload_main_shape:
  "(\<exists>msg. preload_main n e = (Exit 1, [Stderr msg]))
   \<or> preload_main n e = (Outside_model, [])
   \<or> (\<exists>cf sr. preload_main n e
          = (Exit 1, preload_configure cf sr @ [Stderr ''Failed to create buffer'']))
   \<or> (\<exists>cf sr items s. preload_loop n e (preload_start cf sr items) = Inside s
          \<and> preload_main n e = (Transmitting, trace s))
   \<or> (\<exists>cf sr items s. preload_loop n e (preload_start cf sr items) = Left s
          \<and> preload_main n e = (Exit 0, trace s @ preload_shutdown))"
proof (cases "preload_getopt (opts e) (96500000, 2304000, None)")
  case None
  then show ?thesis by (simp add: preload_main_def)
next
  case (Some v)
  obtain cf sr name where v: "v = (cf, sr, name)"
    by (cases v) auto
  show ?thesis
  proof (cases name)
    case None
    then show ?thesis
      unfolding preload_main_def Some v by simp
  next
    case name: (Some f)
    show ?thesis
    proof (cases "input_file e")
      case None
      then show ?thesis
        unfolding preload_main_def Some v name by simp
    next
      case items: (Some items)
      show ?thesis
      proof (cases "preload_loop n e (preload_start cf sr items)")
        case (Left s)
        then show ?thesis
          unfolding preload_main_def Some v name items by (simp; blast)
      next
        case (Inside s)
        then show ?thesis
          unfolding preload_main_def Some v name items by (simp; blast)
      qed
    qed
  qed
qed

lemma preload_main_cases:
  obtains (error) msg where "preload_main n e = (Exit 1, [Stderr msg])"
  | (outside) "preload_main n e = (Outside_model, [])"
  | (no_buffer) cf sr where
      "preload_main n e = (Exit 1, preload_configure cf sr @ [Stderr ''Failed to create buffer''])"
  | (inside) cf sr items s where
      "preload_loop n e (preload_start cf sr items) = Inside s"
      "preload_main n e = (Transmitting, trace s)"
  | (left) cf sr items s where
      "preload_loop n e (preload_start cf sr items) = Left s"
      "preload_main n e = (Exit 0, trace s @ preload_shutdown)"
  using preload_main_shape [of n e] by blast

lemma loop_stop_writes:
  assumes "flag_only_raised s0 s" "stop_writes (trace s0) = []"
  shows "\<exists>m. stop_writes (trace s) = replicate m True"
  using assms unfolding flag_only_raised_def by auto

lemma zed_main_stop_writes: "\<exists>m. stop_writes (snd (zed_main n e)) = replicate m True"
proof (cases n e rule: zed_main_cases)
  case (error msg)
  then show ?thesis by simp
next
  case (no_buffer cf sr)
  then show ?thesis by (simp add: trace_append)
next
  case (inside cf sr dv s)
  have "flag_only_raised (zed_start cf sr dv e) s"
    using zed_loop_flag [of "zed_start cf sr dv e" n e] inside(1) by simp
  then show ?thesis
    unfolding inside(2) snd_conv
    by (rule loop_stop_writes) (simp add: zed_start_def trace_append)
next
  case (left cf sr dv s)
  have "flag_only_raised (zed_start cf sr dv e) s"
    using zed_loop_flag [of "zed_start cf sr dv e" n e] left(1) by simp
  then have "\<exists>m. stop_writes (trace s) = replicate m True"
    by (rule loop_stop_writes) (simp add: zed_start_def trace_append)
  then show ?thesis
    unfolding left(2) by (simp add: trace_append)
qed

lemma preload_main_stop_writes: "\<exists>m. stop_writes (snd (preload_main n e)) = replicate m True"
proof (cases n e rule: preload_main_cases)
  case (error msg)
  then show ?thesis by simp
next
  case outside
  then show ?thesis by simp
next
  case (no_buffer cf sr)
  then show ?thesis by (simp add: trace_append)
next
  case (inside cf sr items s)
  have "flag_only_raised (preload_start cf sr items) s"
    using preload_loop_flag [of "preload_start cf sr items" n e] inside(1) by simp
  then show ?thesis
    unfolding inside(2) snd_conv
    by (rule loop_stop_writes) (simp add: preload_start_def)
next
  case (left cf sr items s)
  have "flag_only_raised (preload_start cf sr items) s"
    using preload_loop_flag [of "preload_start cf sr items" n e] left(1) by simp
  then have "\<exists>m. stop_writes (trace s) = replicate m True"
    by (rule loop_stop_writes) (simp add: preload_start_def)
  then show ?thesis
    unfolding left(2) by (simp add: trace_append)
qed

text \<open>
  C9. In every run of either program, however long it is followed, the flag \<^verbatim>\<open>stop\<close>
  starts false, the history of its values (false, then the values assigned, in order)
  changes from false to true at most once and never from true to false, and the value
  of the flag is always the last value in that history. The assignments come from the
  signal handlers and, in the streaming program, from \<^verbatim>\<open>get_next_sample\<close>.
\<close>

theorem stop_flag_is_raised_at_most_once:
  "rises (False # stop_writes (snd (zed_main n e))) \<le> 1
   \<and> falls (False # stop_writes (snd (zed_main n e))) = 0
   \<and> rises (False # stop_writes (snd (preload_main n e))) \<le> 1
   \<and> falls (False # stop_writes (snd (preload_main n e))) = 0
   \<and> stop (zed_start cf sr dv e) = False
   \<and> stop (preload_start cf sr items) = False
   \<and> stop (state_of (zed_loop n e s))
       = last (stop s # drop (length (stop_writes (trace s)))
                          (stop_writes (trace (state_of (zed_loop n e s)))))
   \<and> stop (state_of (preload_loop n e s'))
       = last (stop s' # drop (length (stop_writes (trace s')))
                           (stop_writes (trace (state_of (preload_loop n e s')))))"
proof -
  obtain a where a: "stop_writes (snd (zed_main n e)) = replicate a True"
    using zed_main_stop_writes by blast
  obtain b where b: "stop_writes (snd (preload_main n e)) = replicate b True"
    using preload_main_stop_writes by blast
  have "stop (zed_start cf sr dv e) = False" "stop (preload_start cf sr items) = False"
    by (simp_all add: zed_start_def preload_start_def)
  then show ?thesis
    unfolding a b
    using flag_only_raised_last [OF zed_loop_flag [of s n e]]
      flag_only_raised_last [OF preload_loop_flag [of s' n e]]
      rises_raised_once [of a] rises_raised_once [of b]
      falls_raised_once [of a] falls_raised_once [of b]
    by (intro conjI) assumption+
qed

section \<open>Error paths\<close>

text \<open>
  C7. Both programs write \<open>powerdown = 0\<close> to the local oscillator before they create
  the buffer. When \<^verbatim>\<open>iio_device_create_buffer\<close> fails they print a message and return 1;
  the events of the first two runs below are all there is, and no \<open>powerdown = 1\<close> is
  among them. The other way out of the running transmitter goes through the statements
  that write \<open>powerdown = 1\<close>: in the third run the push fails, the loop is left by
  \<^verbatim>\<open>break\<close>, and the oscillator is powered down before \<^verbatim>\<open>main\<close> returns.
\<close>

theorem buffer_failure_leaves_the_oscillator_on:
  "zed_main n zed_no_buffer_env
     = (Exit 1,
        [Attr_write_longlong lo_chan ''frequency'' 100000000,
         Attr_write_longlong lo_chan ''powerdown'' 0,
         Attr_write_double phy_chan ''hardwaregain'' (- 10),
         Attr_write_longlong phy_chan ''sampling_frequency'' 2000000,
         Attr_write_longlong phy_chan ''rf_bandwidth'' 200000,
         Channel_enable tx0_i,
         Channel_enable tx0_q,
         Create_buffer 80000,
         Stderr ''Could not create TX buffer''])
   \<and> preload_main n preload_no_buffer_env
     = (Exit 1,
        [Attr_write_longlong lo_chan ''frequency'' 96500000,
         Attr_write_longlong lo_chan ''powerdown'' 0,
         Attr_write_double phy_chan ''hardwaregain'' (- 10),
         Attr_write_longlong phy_chan ''sampling_frequency'' 2304000,
         Channel_enable tx0_i,
         Channel_enable tx0_q,
         Create_buffer 230400,
         Stderr ''Failed to create buffer''])
   \<and> zed_main (Suc n) zed_push_failure_env
     = (Exit 0,
        [Attr_write_longlong lo_chan ''frequency'' 100000000,
         Attr_write_longlong lo_chan ''powerdown'' 0,
         Attr_write_double phy_chan ''hardwaregain'' (- 10),
         Attr_write_longlong phy_chan ''sampling_frequency'' 2000000,
         Attr_write_longlong phy_chan ''rf_bandwidth'' 200000,
         Channel_enable tx0_i,
         Channel_enable tx0_q,
         Create_buffer 80000,
         Stderr ''Starting transmission at %.1f MHz'',
         Source_read,
         Stop_assign True,
         Slot_write 0 32767 0,
         Buffer_push,
         Stderr ''Error pushing buffer'',
         Stderr ''Stopping transmission'',
         Attr_write_longlong lo_chan ''powerdown'' 1,
         Buffer_destroy,
         Channel_disable tx0_i,
         Channel_disable tx0_q,
         Context_destroy])"
  by (simp add: zed_main_def preload_main_def zed_no_buffer_env_def preload_no_buffer_env_def
      zed_push_failure_env_def zed_start_def zed_shutdown_def
      quiet_env_def zed_configure_def preload_configure_def DEFAULT_ATTENUATION_def
      DEFAULT_BANDWIDTH_def zed_DEFAULT_BUFFER_TIME_def preload_DEFAULT_BUFFER_TIME_def
      trunc_toward_zero_def deliver_def get_next_sample_def assign_stop_def emit_def
      zed_modulate_zero)

lemma preload_fill_trace_grows: "\<exists>tr. trace (preload_fill k n s) = trace s @ tr"
proof (induction n arbitrary: k s)
  case 0
  show ?case by simp
next
  case (Suc n)
  show ?case
  proof (cases "index s < total_samples s")
    case True
    define s1 where "s1 = emit (Slot_write k
                 (i_sample (zed_modulate_sample (samples s ! index s) (phase_accum s)
                    (deviation_scale s) (time_per_sample s)))
                 (q_sample (zed_modulate_sample (samples s ! index s) (phase_accum s)
                    (deviation_scale s) (time_per_sample s))))
           (s\<lparr>index := index s + 1,
              phase_accum := signal (zed_modulate_sample (samples s ! index s) (phase_accum s)
                    (deviation_scale s) (time_per_sample s))\<rparr>)"
    obtain a where a: "trace s1 = trace s @ a"
      by (simp add: s1_def emit_def)
    obtain b where b: "trace (preload_fill (Suc k) n s1) = trace s1 @ b"
      using Suc.IH by blast
    show ?thesis
      unfolding preload_fill_Suc if_P [OF True] s1_def [symmetric]
      using a b by simp
  next
    case False
    then show ?thesis by simp
  qed
qed

lemma preload_pass_trace_grows: "\<exists>tr. trace (state_of (preload_pass n e s)) = trace s @ tr"
proof (induction n arbitrary: s)
  case 0
  show ?case by simp
next
  case (Suc n)
  define s1 where "s1 = deliver e handle_sig s"
  define s5 where "s5 = wait_until (next_deadline (t s))
           (((emit Buffer_push (preload_fill 0 (buffer_slots e (pushes s)) s1))
               \<lparr>pushes := pushes s + 1\<rparr>)
               \<lparr>t := next_deadline (t s)\<rparr>)"
  obtain a where a: "trace s1 = trace s @ a"
    by (simp add: s1_def deliver_fields)
  obtain b where b: "trace (preload_fill 0 (buffer_slots e (pushes s)) s1) = trace s1 @ b"
    using preload_fill_trace_grows by blast
  have c: "trace s5 = trace s @ a @ b @ [Buffer_push, Wait_until (next_deadline (t s))]"
    by (simp add: s5_def wait_until_def emit_def a b)
  obtain d where d: "trace (state_of (preload_pass n e s5)) = trace s5 @ d"
    using Suc.IH by blast
  show ?case
    unfolding preload_pass_Suc s1_def [symmetric] s5_def [symmetric]
    using a d c by simp
qed

lemma preload_loop_trace_grows: "\<exists>tr. trace (state_of (preload_loop n e s)) = trace s @ tr"
proof (induction n arbitrary: s)
  case 0
  show ?case by simp
next
  case (Suc n)
  define s1 where "s1 = deliver e handle_sig s"
  define s2 where "s2 = s1\<lparr>phase_accum := 0, index := 0,
                    t := clock e (clock_reads s), clock_reads := clock_reads s + 1\<rparr>"
  obtain a where a: "trace s1 = trace s @ a"
    by (simp add: s1_def deliver_fields)
  obtain b where b: "trace (state_of (preload_pass n e s2)) = trace s @ a @ b"
    using preload_pass_trace_grows [of n e s2] a by (auto simp: s2_def)
  show ?case
  proof (cases "preload_pass n e s2")
    case (Left s3)
    obtain c where "trace (state_of (preload_loop n e s3)) = trace s3 @ c"
      using Suc.IH by blast
    then show ?thesis
      unfolding preload_loop_Suc s1_def [symmetric] s2_def [symmetric]
      using Left a b by simp
  next
    case (Inside s3)
    then show ?thesis
      unfolding preload_loop_Suc s1_def [symmetric] s2_def [symmetric]
      using a b by simp
  qed
qed

text \<open>
  C8, as the code has it. \<^verbatim>\<open>tx-fm-zed.c\<close> rejects a centre frequency outside 70 MHz to
  6 GHz and a sample rate outside 1 MHz to 61.44 MHz: it prints the message and returns
  1, and nothing else has happened. \<^verbatim>\<open>tx-fm-zed-preload.c\<close> does the same when no input
  file is named. It has no check of the frequency or of the sample rate: once the file
  is read and the devices are found, whatever the frequency and whatever the positive
  sample rate, it writes them to the hardware.
\<close>

theorem configuration_errors_exit_before_the_hardware:
  "(zed_getopt (opts e) (- 1, - 1, 10000) = Some (cf, sr, dv)
      \<and> (cf < 70000000 \<or> 6000000000 < cf \<or> sr < 1000000 \<or> 61440000 < sr)
    \<longrightarrow> fst (zed_main n e) = Exit 1
        \<and> (snd (zed_main n e) = [Stderr ''Invalid frequency. Must be between 70 MHz and 6 GHz.'']
           \<or> snd (zed_main n e)
               = [Stderr ''Invalid sample rate. Must be between 1 MHz and 61.44 MHz.'']))
   \<and> (preload_getopt (opts e) (96500000, 2304000, None) = Some (cf', sr', None)
    \<longrightarrow> preload_main n e = (Exit 1, [Stderr ''Input file is required.'']))
   \<and> (preload_getopt (opts e) (96500000, 2304000, None) = Some (cf', sr', Some name)
      \<and> input_file e = Some items \<and> malloc_ok e \<and> 0 < sr'
      \<and> context_ok e \<and> devices_ok e \<and> channels_ok e
    \<longrightarrow> (\<exists>tr. snd (preload_main n e) = preload_configure cf' sr' @ tr))"
proof -
  have "\<exists>tr. snd (preload_main n e) = preload_configure cf' sr' @ tr"
    if g: "preload_getopt (opts e) (96500000, 2304000, None) = Some (cf', sr', Some name)"
      and i: "input_file e = Some items" and ok: "malloc_ok e" "0 < sr'"
        "context_ok e" "devices_ok e" "channels_ok e"
  proof (cases "buffer_ok e")
    case False
    then show ?thesis
      using g i ok by (simp add: preload_main_def)
  next
    case True
    obtain tr where tr: "trace (state_of (preload_loop n e (preload_start cf' sr' items)))
        = preload_configure cf' sr' @ tr"
      using preload_loop_trace_grows [of n e "preload_start cf' sr' items"]
      by (auto simp: preload_start_def)
    show ?thesis
    proof (cases "preload_loop n e (preload_start cf' sr' items)")
      case (Left s)
      then show ?thesis
        using g i ok True tr by (simp add: preload_main_def)
    next
      case (Inside s)
      then show ?thesis
        using g i ok True tr by (simp add: preload_main_def)
    qed
  qed
  then show ?thesis
    by (auto simp add: zed_main_def preload_main_def)
qed

theorem configuration_errors_exit_before_the_hardware_witness:
  "zed_getopt (opts zed_low_frequency_env) (- 1, - 1, 10000) = Some (1, 2000000, 10000)
   \<and> (1 :: int) < 70000000
   \<and> fst (zed_main 2 zed_low_frequency_env) = Exit 1
   \<and> (snd (zed_main 2 zed_low_frequency_env)
         = [Stderr ''Invalid frequency. Must be between 70 MHz and 6 GHz.'']
       \<or> snd (zed_main 2 zed_low_frequency_env)
         = [Stderr ''Invalid sample rate. Must be between 1 MHz and 61.44 MHz.''])
   \<and> preload_getopt (opts no_input_env) (96500000, 2304000, None) = Some (100000000, 2000000, None)
   \<and> preload_main 2 no_input_env = (Exit 1, [Stderr ''Input file is required.''])
   \<and> preload_getopt (opts preload_low_frequency_env) (96500000, 2304000, None)
       = Some (1, 2304000, Some ''input.raw'')
   \<and> input_file preload_low_frequency_env = Some [0, 0]
   \<and> malloc_ok preload_low_frequency_env \<and> (0 :: int) < 2304000
   \<and> context_ok preload_low_frequency_env \<and> devices_ok preload_low_frequency_env
   \<and> channels_ok preload_low_frequency_env
   \<and> (\<exists>tr. snd (preload_main 2 preload_low_frequency_env) = preload_configure 1 2304000 @ tr)"
proof -
  have z: "zed_getopt (opts zed_low_frequency_env) (- 1, - 1, 10000) = Some (1, 2000000, 10000)"
    by (simp add: zed_low_frequency_env_def quiet_env_def)
  have p: "preload_getopt (opts no_input_env) (96500000, 2304000, None)
      = Some (100000000, 2000000, None)"
    by (simp add: no_input_env_def quiet_env_def)
  have l: "preload_getopt (opts preload_low_frequency_env) (96500000, 2304000, None)
       = Some (1, 2304000, Some ''input.raw'')"
    "input_file preload_low_frequency_env = Some [0, 0]"
    "malloc_ok preload_low_frequency_env" "context_ok preload_low_frequency_env"
    "devices_ok preload_low_frequency_env" "channels_ok preload_low_frequency_env"
    by (simp_all add: preload_low_frequency_env_def quiet_env_def)
  have "fst (zed_main 2 zed_low_frequency_env) = Exit 1
      \<and> (snd (zed_main 2 zed_low_frequency_env)
            = [Stderr ''Invalid frequency. Must be between 70 MHz and 6 GHz.'']
          \<or> snd (zed_main 2 zed_low_frequency_env)
            = [Stderr ''Invalid sample rate. Must be between 1 MHz and 61.44 MHz.''])"
    using configuration_errors_exit_before_the_hardware
      [where e = zed_low_frequency_env and n = 2 and cf = 1 and sr = 2000000
        and dv = 10000, THEN conjunct1] z
    by simp
  moreover have "preload_main 2 no_input_env = (Exit 1, [Stderr ''Input file is required.''])"
    using configuration_errors_exit_before_the_hardware
      [where e = no_input_env and n = 2 and cf' = 100000000 and sr' = 2000000,
        THEN conjunct2, THEN conjunct1] p
    by simp
  moreover have "\<exists>tr. snd (preload_main 2 preload_low_frequency_env) = preload_configure 1 2304000 @ tr"
    using configuration_errors_exit_before_the_hardware
      [where e = preload_low_frequency_env and n = 2 and cf' = 1 and sr' = 2304000
        and name = "''input.raw''" and items = "[0, 0]", THEN conjunct2, THEN conjunct2] l
    by simp
  ultimately show ?thesis
    using z p l by simp
qed

text \<open>
  C8 as stated covers both programs. Given \<open>-f 1\<close>, the preloading program writes the
  frequency 1 Hz to the hardware, fills and pushes a buffer, and goes on transmitting.
\<close>

theorem preload_accepts_any_frequency:
  "preload_main 2 preload_low_frequency_env
     = (Transmitting,
        [Attr_write_longlong lo_chan ''frequency'' 1,
         Attr_write_longlong lo_chan ''powerdown'' 0,
         Attr_write_double phy_chan ''hardwaregain'' (- 10),
         Attr_write_longlong phy_chan ''sampling_frequency'' 2304000,
         Channel_enable tx0_i,
         Channel_enable tx0_q,
         Create_buffer 230400,
         Slot_write 0 32767 0,
         Buffer_push,
         Wait_until \<lparr>tv_sec = 0, tv_nsec = 100000000\<rparr>])"
  by (simp add: preload_main_def preload_start_def preload_low_frequency_env_def quiet_env_def
      preload_configure_def DEFAULT_ATTENUATION_def preload_DEFAULT_BUFFER_TIME_def
      trunc_toward_zero_def
      numeral_2_eq_2 preload_loop_Suc preload_pass_Suc deliver_def preload_fill_Suc
      emit_def wait_until_def zed_modulate_zero next_deadline_normalised
      del: preload_pass.simps(2) preload_fill.simps(2))

end
